theory Spec2Isabelle
  imports Complex_Main
begin

section \<open>Numbers\<close>

text \<open>
  The program computes on JavaScript numbers, IEEE 754 doubles. The theory embeds the
  geometry twice.

  In the exact embedding a finite number is a \<open>real\<close> and every operation is exact:
  \<open>Math.PI\<close> is \<open>pi\<close>, \<open>Math.sqrt\<close>, \<open>Math.cos\<close>, \<open>Math.sin\<close>, \<open>Math.abs\<close>, \<open>Math.min\<close> and
  \<open>Math.max\<close> are \<open>sqrt\<close>, \<open>cos\<close>, \<open>sin\<close>, \<open>abs\<close>, \<open>min\<close> and \<open>max\<close>. It carries the store, the
  gesture handlers and the comparison of angles.

  In the double-precision embedding (the definitions ending in \<open>_fp\<close>) a double is the real
  number it denotes, \<open>Math.PI\<close> is the double \<open>Math_PI\<close>, and every addition, subtraction and
  multiplication is followed by the rounding \<open>fl\<close>. It carries the statements about the values
  that \<open>normalizeAngle\<close> and \<open>calculateApparentWind\<close> return. Overflow, underflow, \<open>NaN\<close> and the
  sign of zero are outside both embeddings.

  A JavaScript division never raises: a zero divisor gives \<open>Infinity\<close>, \<open>-Infinity\<close> or
  \<open>NaN\<close>, where HOL's \<open>x / 0\<close> is \<open>0\<close>. The only division of the program whose divisor can be
  zero is the one of the speed getters, so its result has the type \<open>number\<close>.
\<close>

datatype number = Finite real | PosInfinity | NegInfinity | NaN

definition js_div :: "real \<Rightarrow> real \<Rightarrow> number" where
  \<comment> \<open>\<open>a / b\<close>; a zero divisor is the \<open>+0\<close> that a difference of two equal numbers gives.\<close>
  "js_div a b =
     (if b \<noteq> 0 then Finite (a / b)
      else if 0 < a then PosInfinity
      else if a < 0 then NegInfinity
      else NaN)"

fun js_times :: "number \<Rightarrow> real \<Rightarrow> number" where
  \<comment> \<open>\<open>n * c\<close> for a finite \<open>c\<close>.\<close>
  "js_times (Finite a) c = Finite (a * c)"
| "js_times PosInfinity c = (if 0 < c then PosInfinity else if c < 0 then NegInfinity else NaN)"
| "js_times NegInfinity c = (if 0 < c then NegInfinity else if c < 0 then PosInfinity else NaN)"
| "js_times NaN c = NaN"

definition js_trunc :: "real \<Rightarrow> int" where
  \<comment> \<open>rounding towards zero\<close>
  "js_trunc q = (if 0 \<le> q then \<lfloor>q\<rfloor> else \<lceil>q\<rceil>)"

definition js_rem :: "real \<Rightarrow> real \<Rightarrow> real" where
  \<comment> \<open>\<open>a % b\<close> for \<open>b \<noteq> 0\<close>: the remainder of the truncated division; it has the sign of \<open>a\<close>.\<close>
  "js_rem a b = a - b * of_int (js_trunc (a / b))"

definition atan2 :: "real \<Rightarrow> real \<Rightarrow> real" where
  \<comment> \<open>\<open>Math.atan2(y, x)\<close>, in \<open>(-pi, pi]\<close>, with \<open>Math.atan2(0, 0) = 0\<close>.\<close>
  "atan2 y x =
     (if 0 < x then arctan (y / x)
      else if x < 0 then (if 0 \<le> y then arctan (y / x) + pi else arctan (y / x) - pi)
      else if 0 < y then pi / 2
      else if y < 0 then - (pi / 2)
      else 0)"

section \<open>Wind calculations (composables/useWindCalculations.ts)\<close>

record Vector2D =
  vx :: real
  vy :: real

record PolarCoords =
  p_angle :: real
  magnitude :: real

record WindData =
  w_angle :: real
  w_speed :: real

record BoatData =
  heading :: real
  b_speed :: real

definition degToRad :: "real \<Rightarrow> real" where
  "degToRad degrees = (degrees * pi) / 180"

definition radToDeg :: "real \<Rightarrow> real" where
  "radToDeg radians = (radians * 180) / pi"

definition normalizeAngle :: "real \<Rightarrow> real" where
  "normalizeAngle a =
     (let normalized = js_rem a (2 * pi)
      in if normalized < 0 then normalized + 2 * pi else normalized)"

definition polarToCartesian :: "PolarCoords \<Rightarrow> Vector2D" where
  "polarToCartesian polar =
     \<lparr>vx = magnitude polar * cos (p_angle polar),
      vy = magnitude polar * sin (p_angle polar)\<rparr>"

definition cartesianToPolar :: "Vector2D \<Rightarrow> PolarCoords" where
  "cartesianToPolar v =
     \<lparr>p_angle = atan2 (vy v) (vx v),
      magnitude = sqrt (vx v * vx v + vy v * vy v)\<rparr>"

definition addVectors :: "Vector2D \<Rightarrow> Vector2D \<Rightarrow> Vector2D" where
  "addVectors a b = \<lparr>vx = vx a + vx b, vy = vy a + vy b\<rparr>"

definition subtractVectors :: "Vector2D \<Rightarrow> Vector2D \<Rightarrow> Vector2D" where
  "subtractVectors a b = \<lparr>vx = vx a - vx b, vy = vy a - vy b\<rparr>"

definition scaleVector :: "Vector2D \<Rightarrow> real \<Rightarrow> Vector2D" where
  "scaleVector v k = \<lparr>vx = vx v * k, vy = vy v * k\<rparr>"

definition calculateApparentWind :: "WindData \<Rightarrow> BoatData \<Rightarrow> WindData" where
  "calculateApparentWind trueWind boat =
     (let trueWindVector = polarToCartesian \<lparr>p_angle = w_angle trueWind, magnitude = w_speed trueWind\<rparr>;
          boatVector = polarToCartesian \<lparr>p_angle = heading boat, magnitude = b_speed boat\<rparr>;
          apparentWindVector = subtractVectors trueWindVector boatVector;
          apparentWindPolar = cartesianToPolar apparentWindVector
      in \<lparr>w_angle = normalizeAngle (p_angle apparentWindPolar),
          w_speed = max 0 (magnitude apparentWindPolar)\<rparr>)"

definition angleCollision :: "real \<Rightarrow> real \<Rightarrow> real \<Rightarrow> bool" where
  \<comment> \<open>the separation is always passed; the source's default for it is \<open>degToRad(10)\<close>\<close>
  "angleCollision angle1 angle2 minSeparation =
     (let diff = \<bar>normalizeAngle angle1 - normalizeAngle angle2\<bar>;
          minDiff = min diff (2 * pi - diff)
      in minDiff < minSeparation)"

fun constrainLoop :: "real \<Rightarrow> real list \<Rightarrow> real \<Rightarrow> real" where
  \<comment> \<open>the \<open>for\<close> loop of \<open>constrainAngle\<close>, on the angles still to visit\<close>
  "constrainLoop constrainedAngle [] minSeparation = constrainedAngle"
| "constrainLoop constrainedAngle (existingAngle # rest) minSeparation =
     (if angleCollision constrainedAngle existingAngle minSeparation then
        (let normalizedExisting = normalizeAngle existingAngle;
             option1 = normalizeAngle (normalizedExisting + minSeparation);
             option2 = normalizeAngle (normalizedExisting - minSeparation);
             diff1 = \<bar>normalizeAngle constrainedAngle - option1\<bar>;
             diff2 = \<bar>normalizeAngle constrainedAngle - option2\<bar>
         in constrainLoop (if diff1 < diff2 then option1 else option2) rest minSeparation)
      else constrainLoop constrainedAngle rest minSeparation)"

definition constrainAngle :: "real \<Rightarrow> real list \<Rightarrow> real \<Rightarrow> real" where
  "constrainAngle proposedAngle existingAngles minSeparation =
     constrainLoop (normalizeAngle proposedAngle) existingAngles minSeparation"

definition distance :: "Vector2D \<Rightarrow> Vector2D \<Rightarrow> real" where
  "distance a b = (let dx = vx a - vx b; dy = vy a - vy b in sqrt (dx * dx + dy * dy))"

definition getAngleFromCenter :: "Vector2D \<Rightarrow> Vector2D \<Rightarrow> real" where
  "getAngleFromCenter center point = atan2 (vy point - vy center) (vx point - vx center)"

definition clamp :: "real \<Rightarrow> real \<Rightarrow> real \<Rightarrow> real" where
  "clamp v lo hi = min (max v lo) hi"

section \<open>Wind calculations in double precision\<close>

text \<open>
  \<open>fl\<close> rounds a real number to the nearest number with 53 significant bits, ties to the
  even significand, as every arithmetic operation on doubles does; the exponent range is
  not bounded. \<open>binade x\<close> is the exponent of the power of two at or below \<open>\<bar>x\<bar>\<close>.
\<close>

definition round_half_even :: "real \<Rightarrow> int" where
  "round_half_even q =
     (let f = \<lfloor>q\<rfloor>; d = q - of_int f
      in if d < 1 / 2 then f else if 1 / 2 < d then f + 1 else if even f then f else f + 1)"

definition binade :: "real \<Rightarrow> int" where
  "binade x = \<lfloor>log 2 \<bar>x\<bar>\<rfloor>"

definition fl :: "real \<Rightarrow> real" where
  "fl x =
     (if x = 0 then 0
      else of_int (round_half_even (x / 2 powr of_int (binade x - 52))) * 2 powr of_int (binade x - 52))"

definition Math_PI :: real where
  \<comment> \<open>the double 0x400921FB54442D18, printed 3.141592653589793\<close>
  "Math_PI = 884279719003555 / 2 ^ 48"

definition normalizeAngle_fp :: "real \<Rightarrow> real" where
  \<comment> \<open>\<open>%\<close> and \<open>2 * Math.PI\<close> are exact on doubles; \<open>normalized += 2 * Math.PI\<close> rounds\<close>
  "normalizeAngle_fp a =
     (let normalized = js_rem a (2 * Math_PI)
      in if normalized < 0 then fl (normalized + 2 * Math_PI) else normalized)"

text \<open>
  The functions of \<open>Math\<close> that the wind calculations call are a parameter: the language
  leaves their accuracy to the implementation. A statement for every \<open>MathLib\<close> holds whatever
  these functions return. \<open>m_atan2 L y x\<close> takes the values of its arguments; where \<open>Math.atan2\<close>
  depends on the sign of a zero argument, each of its results is still a value of some
  \<open>MathLib\<close>. \<open>roundedLib\<close> returns the exact value rounded to double.
\<close>

record MathLib =
  m_cos :: "real \<Rightarrow> real"
  m_sin :: "real \<Rightarrow> real"
  m_sqrt :: "real \<Rightarrow> real"
  m_atan2 :: "real \<Rightarrow> real \<Rightarrow> real"

definition roundedLib :: MathLib where
  "roundedLib =
     \<lparr>m_cos = (\<lambda>x. fl (cos x)),
      m_sin = (\<lambda>x. fl (sin x)),
      m_sqrt = (\<lambda>x. fl (sqrt x)),
      m_atan2 = (\<lambda>y x. fl (atan2 y x))\<rparr>"

definition polarToCartesian_fp :: "MathLib \<Rightarrow> PolarCoords \<Rightarrow> Vector2D" where
  "polarToCartesian_fp L polar =
     \<lparr>vx = fl (magnitude polar * m_cos L (p_angle polar)),
      vy = fl (magnitude polar * m_sin L (p_angle polar))\<rparr>"

definition cartesianToPolar_fp :: "MathLib \<Rightarrow> Vector2D \<Rightarrow> PolarCoords" where
  "cartesianToPolar_fp L v =
     \<lparr>p_angle = m_atan2 L (vy v) (vx v),
      magnitude = m_sqrt L (fl (fl (vx v * vx v) + fl (vy v * vy v)))\<rparr>"

definition subtractVectors_fp :: "Vector2D \<Rightarrow> Vector2D \<Rightarrow> Vector2D" where
  "subtractVectors_fp a b = \<lparr>vx = fl (vx a - vx b), vy = fl (vy a - vy b)\<rparr>"

definition calculateApparentWind_fp :: "MathLib \<Rightarrow> WindData \<Rightarrow> BoatData \<Rightarrow> WindData" where
  "calculateApparentWind_fp L trueWind boat =
     (let trueWindVector = polarToCartesian_fp L \<lparr>p_angle = w_angle trueWind, magnitude = w_speed trueWind\<rparr>;
          boatVector = polarToCartesian_fp L \<lparr>p_angle = heading boat, magnitude = b_speed boat\<rparr>;
          apparentWindVector = subtractVectors_fp trueWindVector boatVector;
          apparentWindPolar = cartesianToPolar_fp L apparentWindVector
      in \<lparr>w_angle = normalizeAngle_fp (p_angle apparentWindPolar),
          w_speed = max 0 (magnitude apparentWindPolar)\<rparr>)"

section \<open>The store (stores/sailing.ts and app/stores/sailing.ts)\<close>

text \<open>
  The repository holds the store twice. The two copies differ in \<open>updateRingDrag\<close> only:
  every other getter and action below is the same text in both.
\<close>

datatype RingType = Wind | Boat

record Ring =
  angle :: real
  radius :: real
  spokes :: nat
  minRadius :: real
  maxRadius :: real

record Canvas =
  width :: real
  height :: real
  centerX :: real
  centerY :: real

text \<open>
  \<open>apparentWind\<close> is \<open>None\<close> when the stored record has a field that is not finite: a speed
  getter divided by zero, and every vector computed from an infinite or \<open>NaN\<close> speed has an
  infinite or \<open>NaN\<close> magnitude. The fields of such a record are not modelled further.
  \<open>selectedRing\<close> and \<open>dragStart\<close> are \<open>None\<close> for \<open>null\<close>.
\<close>

record SailingState =
  windRing :: Ring
  boatRing :: Ring
  apparentWind :: "WindData option"
  canvas :: Canvas
  selectedRing :: "RingType option"
  isDragging :: bool
  dragStart :: "Vector2D option"

definition initialState :: SailingState where
  "initialState =
     \<lparr>windRing = \<lparr>angle = degToRad 0, radius = 180, spokes = 3, minRadius = 80, maxRadius = 250\<rparr>,
      boatRing = \<lparr>angle = degToRad 45, radius = 120, spokes = 4, minRadius = 60, maxRadius = 180\<rparr>,
      apparentWind = Some \<lparr>w_angle = degToRad 0, w_speed = 0\<rparr>,
      canvas = \<lparr>width = 800, height = 600, centerX = 400, centerY = 300\<rparr>,
      selectedRing = None,
      isDragging = False,
      dragStart = None\<rparr>"

definition windSpeed :: "SailingState \<Rightarrow> number" where
  "windSpeed s =
     (let normalized = js_div (radius (windRing s) - minRadius (windRing s))
                              (maxRadius (windRing s) - minRadius (windRing s))
      in js_times normalized 30)"

definition boatSpeed :: "SailingState \<Rightarrow> number" where
  "boatSpeed s =
     (let normalized = js_div (radius (boatRing s) - minRadius (boatRing s))
                              (maxRadius (boatRing s) - minRadius (boatRing s))
      in js_times normalized 20)"

definition updateCanvasDimensions :: "real \<Rightarrow> real \<Rightarrow> SailingState \<Rightarrow> SailingState" where
  "updateCanvasDimensions w h s =
     (let maxSize = min w h * 0.4
      in s\<lparr>canvas := \<lparr>width = w, height = h, centerX = w / 2, centerY = h / 2\<rparr>,
           windRing := (windRing s)
             \<lparr>maxRadius := maxSize,
              minRadius := maxSize * 0.4,
              radius := min (radius (windRing s)) maxSize\<rparr>,
           boatRing := (boatRing s)
             \<lparr>maxRadius := maxSize * 0.8,
              minRadius := maxSize * 0.3,
              radius := min (radius (boatRing s)) (maxSize * 0.8)\<rparr>\<rparr>)"

definition startRingDrag :: "RingType \<Rightarrow> Vector2D \<Rightarrow> SailingState \<Rightarrow> SailingState" where
  "startRingDrag ringType startPoint s =
     s\<lparr>selectedRing := Some ringType, isDragging := True, dragStart := Some startPoint\<rparr>"

definition freshApparentWind :: "SailingState \<Rightarrow> WindData option" where
  \<comment> \<open>the right-hand side of the assignment in the action \<open>calculateApparentWind\<close>\<close>
  "freshApparentWind s =
     (case (windSpeed s, boatSpeed s) of
        (Finite ws, Finite bs) \<Rightarrow>
          Some (calculateApparentWind \<lparr>w_angle = angle (windRing s), w_speed = ws\<rparr>
                                      \<lparr>heading = angle (boatRing s), b_speed = bs\<rparr>)
      | _ \<Rightarrow> None)"

definition store_calculateApparentWind :: "SailingState \<Rightarrow> SailingState" where
  \<comment> \<open>the action \<open>calculateApparentWind\<close> of the store\<close>
  "store_calculateApparentWind s = s\<lparr>apparentWind := freshApparentWind s\<rparr>"

definition initialize :: "SailingState \<Rightarrow> SailingState" where
  "initialize s = store_calculateApparentWind s"

definition ringOf :: "RingType \<Rightarrow> SailingState \<Rightarrow> Ring" where
  \<comment> \<open>\<open>selectedRing === 'wind' ? windRing : boatRing\<close>\<close>
  "ringOf sel s = (if sel = Wind then windRing s else boatRing s)"

definition updateRingDrag :: "Vector2D \<Rightarrow> SailingState \<Rightarrow> SailingState" where
  \<comment> \<open>stores/sailing.ts, the copy that composables/useSailingCanvas.ts imports\<close>
  "updateRingDrag currentPoint s =
     (case (selectedRing s, dragStart s) of
        (Some sel, Some start) \<Rightarrow>
          if \<not> isDragging s then s
          else
            (let ring = ringOf sel s;
                 startVector = \<lparr>vx = vx start - centerX (canvas s), vy = vy start - centerY (canvas s)\<rparr>;
                 currentVector = \<lparr>vx = vx currentPoint - centerX (canvas s),
                                  vy = vy currentPoint - centerY (canvas s)\<rparr>;
                 startRadius = sqrt ((vx startVector)\<^sup>2 + (vy startVector)\<^sup>2);
                 currentRadius = sqrt ((vx currentVector)\<^sup>2 + (vy currentVector)\<^sup>2);
                 deltaR = currentRadius - startRadius;
                 startAngle = atan2 (vy startVector) (vx startVector);
                 currentAngle = atan2 (vy currentVector) (vx currentVector);
                 deltaTheta = normalizeAngle (currentAngle - startAngle);
                 radialMovement = \<bar>deltaR\<bar>;
                 tangentialMovement = \<bar>startRadius * deltaTheta\<bar>;
                 s1 = (if radialMovement > tangentialMovement then
                         (let newRadius = max (minRadius ring) (min (maxRadius ring) (radius ring + deltaR))
                          in if sel = Wind then s\<lparr>windRing := (windRing s)\<lparr>radius := newRadius\<rparr>\<rparr>
                             else s\<lparr>boatRing := (boatRing s)\<lparr>radius := newRadius\<rparr>\<rparr>)
                       else
                         (let newAngle = normalizeAngle (angle ring + deltaTheta)
                          in if sel = Wind then s\<lparr>windRing := (windRing s)\<lparr>angle := newAngle\<rparr>\<rparr>
                             else s\<lparr>boatRing := (boatRing s)\<lparr>angle := newAngle\<rparr>\<rparr>))
             in store_calculateApparentWind (s1\<lparr>dragStart := Some currentPoint\<rparr>))
      | _ \<Rightarrow> s)"

definition updateRingDrag_app :: "Vector2D \<Rightarrow> SailingState \<Rightarrow> SailingState" where
  \<comment> \<open>app/stores/sailing.ts\<close>
  "updateRingDrag_app currentPoint s =
     (case selectedRing s of
        Some sel \<Rightarrow>
          if \<not> isDragging s then s
          else
            (let ring = ringOf sel s;
                 dx = vx currentPoint - centerX (canvas s);
                 dy = vy currentPoint - centerY (canvas s);
                 newRadius = sqrt (dx * dx + dy * dy);
                 newAngle = atan2 dy dx;
                 clampedRadius = max (minRadius ring) (min (maxRadius ring) newRadius);
                 s1 = (if sel = Wind then
                         s\<lparr>windRing := (windRing s)\<lparr>radius := clampedRadius, angle := normalizeAngle newAngle\<rparr>\<rparr>
                       else
                         s\<lparr>boatRing := (boatRing s)\<lparr>radius := clampedRadius, angle := normalizeAngle newAngle\<rparr>\<rparr>)
             in store_calculateApparentWind (s1\<lparr>dragStart := Some currentPoint\<rparr>))
      | None \<Rightarrow> s)"

definition endRingDrag :: "SailingState \<Rightarrow> SailingState" where
  "endRingDrag s = s\<lparr>selectedRing := None, isDragging := False, dragStart := None\<rparr>"

datatype Direction = Left | Right | Up | Down

definition setRing :: "RingType \<Rightarrow> Ring \<Rightarrow> SailingState \<Rightarrow> SailingState" where
  \<comment> \<open>a write through the alias \<open>ring\<close> of \<open>moveSelectedRing\<close>\<close>
  "setRing sel r s = (if sel = Wind then s\<lparr>windRing := r\<rparr> else s\<lparr>boatRing := r\<rparr>)"

definition moveSelectedRing :: "Direction \<Rightarrow> real \<Rightarrow> SailingState \<Rightarrow> SailingState" where
  \<comment> \<open>the step is always passed; the source's default for it is 0.05\<close>
  "moveSelectedRing direction step s =
     (case selectedRing s of
        None \<Rightarrow> s
      | Some sel \<Rightarrow>
          (let ring = ringOf sel s;
               ring' = (case direction of
                          Left \<Rightarrow> ring\<lparr>angle := normalizeAngle (angle ring - degToRad 5)\<rparr>
                        | Right \<Rightarrow> ring\<lparr>angle := normalizeAngle (angle ring + degToRad 5)\<rparr>
                        | Up \<Rightarrow> ring\<lparr>radius := min (maxRadius ring) (radius ring + maxRadius ring * step)\<rparr>
                        | Down \<Rightarrow> ring\<lparr>radius := max (minRadius ring) (radius ring - maxRadius ring * step)\<rparr>)
           in store_calculateApparentWind (setRing sel ring' s)))"

definition selectRing :: "RingType option \<Rightarrow> SailingState \<Rightarrow> SailingState" where
  "selectRing ringType s = s\<lparr>selectedRing := ringType\<rparr>"

section \<open>The gesture handlers (composables/useSailingCanvas.ts)\<close>

text \<open>
  \<open>setupGestures\<close> keeps two local variables, \<open>isDragging\<close> and \<open>currentRing\<close>, beside the
  store. A handler takes the pointer position in canvas coordinates.
\<close>

record Gesture =
  g_isDragging :: bool
  currentRing :: "RingType option"

datatype Key = ArrowLeft | ArrowRight | ArrowUp | ArrowDown | Escape | OtherKey

definition getRingAt :: "Vector2D \<Rightarrow> SailingState \<Rightarrow> RingType option" where
  "getRingAt point s =
     (let center = \<lparr>vx = centerX (canvas s), vy = centerY (canvas s)\<rparr>;
          distFromCenter = distance point center;
          tolerance = 20
      in if \<bar>distFromCenter - radius (windRing s)\<bar> < tolerance then Some Wind
         else if \<bar>distFromCenter - radius (boatRing s)\<bar> < tolerance then Some Boat
         else None)"

definition handleMouseDown :: "Vector2D \<Rightarrow> Gesture \<times> SailingState \<Rightarrow> Gesture \<times> SailingState" where
  "handleMouseDown canvasPoint gs =
     (case getRingAt canvasPoint (snd gs) of
        Some ring \<Rightarrow>
          (\<lparr>g_isDragging = True, currentRing = Some ring\<rparr>, startRingDrag ring canvasPoint (snd gs))
      | None \<Rightarrow> (fst gs, selectRing None (snd gs)))"

definition handleMouseMove :: "Vector2D \<Rightarrow> Gesture \<times> SailingState \<Rightarrow> Gesture \<times> SailingState" where
  "handleMouseMove canvasPoint gs =
     (if \<not> g_isDragging (fst gs) \<or> currentRing (fst gs) = None then gs
      else (fst gs, updateRingDrag canvasPoint (snd gs)))"

definition handleMouseUp :: "Gesture \<times> SailingState \<Rightarrow> Gesture \<times> SailingState" where
  "handleMouseUp gs =
     (\<lparr>g_isDragging = False, currentRing = None\<rparr>,
      if g_isDragging (fst gs) \<and> currentRing (fst gs) \<noteq> None
      then selectRing (currentRing (fst gs)) (endRingDrag (snd gs))
      else snd gs)"

definition handleKeyDown :: "Key \<Rightarrow> SailingState \<Rightarrow> SailingState" where
  "handleKeyDown key s =
     (if selectedRing s = None then s
      else case key of
             ArrowLeft \<Rightarrow> moveSelectedRing Left 0.05 s
           | ArrowRight \<Rightarrow> moveSelectedRing Right 0.05 s
           | ArrowUp \<Rightarrow> moveSelectedRing Up 0.05 s
           | ArrowDown \<Rightarrow> moveSelectedRing Down 0.05 s
           | Escape \<Rightarrow> selectRing None s
           | OtherKey \<Rightarrow> s)"

definition handleResize :: "real \<Rightarrow> real \<Rightarrow> SailingState \<Rightarrow> SailingState" where
  \<comment> \<open>the arguments are the width and height of the canvas's bounding rectangle\<close>
  "handleResize w h s = updateCanvasDimensions w h s"

section \<open>Notions of the specification\<close>

definition spec_angularDistance :: "real \<Rightarrow> real \<Rightarrow> real" where
  \<comment> \<open>the minimum of the forward and the backward angular distance between the normalized angles\<close>
  "spec_angularDistance a1 a2 =
     min (normalizeAngle (normalizeAngle a2 - normalizeAngle a1))
         (normalizeAngle (normalizeAngle a1 - normalizeAngle a2))"

definition otherRing :: "RingType \<Rightarrow> RingType" where
  "otherRing r = (if r = Wind then Boat else Wind)"

definition keyDirection :: "Key \<Rightarrow> Direction option" where
  \<comment> \<open>the direction that \<open>handleKeyDown\<close> passes to \<open>moveSelectedRing\<close> for an arrow key\<close>
  "keyDirection k =
     (case k of ArrowLeft \<Rightarrow> Some Left | ArrowRight \<Rightarrow> Some Right
      | ArrowUp \<Rightarrow> Some Up | ArrowDown \<Rightarrow> Some Down | _ \<Rightarrow> None)"

section \<open>Example states\<close>

definition mountedState :: SailingState where
  \<comment> \<open>the state that \<open>initCanvas\<close> leaves for a canvas of 800 by 600 pixels\<close>
  "mountedState = initialize (updateCanvasDimensions 800 600 initialState)"

definition collapsedState :: SailingState where
  \<comment> \<open>a canvas without extent\<close>
  "collapsedState = updateCanvasDimensions 0 0 initialState"

definition dragExample :: SailingState where
  \<comment> \<open>a pointer-down at (590, 300), within the tolerance of the wind ring of the initial state\<close>
  "dragExample = startRingDrag Wind \<lparr>vx = 590, vy = 300\<rparr> initialState"

section \<open>Angle normalisation\<close>

lemma js_rem_floor:
  assumes "0 < b"
  shows "(let r = js_rem a b in if r < 0 then r + b else r) = a - b * of_int \<lfloor>a / b\<rfloor>"
proof (cases "0 \<le> a / b")
  case True
  have "0 \<le> a / b - of_int \<lfloor>a / b\<rfloor>" by linarith
  then have "0 \<le> b * (a / b - of_int \<lfloor>a / b\<rfloor>)" using assms by simp
  then have "0 \<le> a - b * of_int \<lfloor>a / b\<rfloor>" using assms by (simp add: algebra_simps)
  then show ?thesis using True by (simp add: js_rem_def js_trunc_def Let_def)
next
  case False
  show ?thesis
  proof (cases "a / b = of_int \<lfloor>a / b\<rfloor>")
    case True
    then have c: "\<lceil>a / b\<rceil> = \<lfloor>a / b\<rfloor>" by (metis ceiling_of_int)
    have "b * (a / b) = a" using assms by simp
    then have "a - b * of_int \<lfloor>a / b\<rfloor> = 0" using True by simp
    then show ?thesis using False c by (simp add: js_rem_def js_trunc_def Let_def)
  next
    case notint: False
    then have c: "\<lceil>a / b\<rceil> = \<lfloor>a / b\<rfloor> + 1"
      by (metis ceiling_altdef)
    have "a / b - of_int \<lfloor>a / b\<rfloor> < 1" by linarith
    then have "b * (a / b - of_int \<lfloor>a / b\<rfloor>) < b * 1" using assms by (simp only: mult_less_cancel_left_pos)
    then have "a - b * of_int \<lfloor>a / b\<rfloor> - b < 0" using assms by (simp add: algebra_simps)
    then show ?thesis using False c by (simp add: js_rem_def js_trunc_def Let_def algebra_simps)
  qed
qed

lemma normalizeAngle_floor: "normalizeAngle a = a - 2 * pi * of_int \<lfloor>a / (2 * pi)\<rfloor>"
  using js_rem_floor [of "2 * pi" a] by (simp add: normalizeAngle_def)

lemma normalizeAngle_range: "0 \<le> normalizeAngle a \<and> normalizeAngle a < 2 * pi"
proof -
  let ?q = "a / (2 * pi)"
  have "0 \<le> ?q - of_int \<lfloor>?q\<rfloor>" "?q - of_int \<lfloor>?q\<rfloor> < 1" by linarith+
  then have "0 \<le> 2 * pi * (?q - of_int \<lfloor>?q\<rfloor>)" "2 * pi * (?q - of_int \<lfloor>?q\<rfloor>) < 2 * pi * 1"
    by (simp_all only: mult_less_cancel_left_pos zero_le_mult_iff) (simp_all)
  then show ?thesis by (simp add: normalizeAngle_floor algebra_simps)
qed

lemma normalizeAngle_shift: "normalizeAngle (a + 2 * pi * of_int k) = normalizeAngle a"
proof -
  have "(a + 2 * pi * of_int k) / (2 * pi) = a / (2 * pi) + of_int k"
    by (simp add: field_simps)
  then show ?thesis by (simp add: normalizeAngle_floor algebra_simps)
qed

lemma normalizeAngle_id: "0 \<le> a \<Longrightarrow> a < 2 * pi \<Longrightarrow> normalizeAngle a = a"
proof -
  assume "0 \<le> a" "a < 2 * pi"
  then have "0 \<le> a / (2 * pi)" "a / (2 * pi) < 1" by (simp_all add: field_simps)
  then have "\<lfloor>a / (2 * pi)\<rfloor> = 0" by linarith
  then show ?thesis by (simp add: normalizeAngle_floor)
qed

lemma normalizeAngle_neg: "- (2 * pi) \<le> a \<Longrightarrow> a < 0 \<Longrightarrow> normalizeAngle a = a + 2 * pi"
proof -
  assume "- (2 * pi) \<le> a" "a < 0"
  then have "0 \<le> a + 2 * pi" "a + 2 * pi < 2 * pi" by simp_all
  then have "normalizeAngle (a + 2 * pi) = a + 2 * pi" by (rule normalizeAngle_id)
  moreover have "normalizeAngle (a + 2 * pi * of_int 1) = normalizeAngle a"
    by (rule normalizeAngle_shift)
  ultimately show ?thesis by simp
qed

section \<open>Rounding to double precision\<close>

lemma round_half_even_cases:
  "round_half_even q = \<lfloor>q\<rfloor> \<or> round_half_even q = \<lfloor>q\<rfloor> + 1"
  by (simp add: round_half_even_def Let_def)

lemma round_half_even_le: "q \<le> of_int n \<Longrightarrow> round_half_even q \<le> n"
proof -
  assume h: "q \<le> of_int n"
  show ?thesis
  proof (cases "q = of_int n")
    case True
    then show ?thesis by (simp add: round_half_even_def Let_def)
  next
    case False
    then have "q < of_int n" using h by simp
    then have "\<lfloor>q\<rfloor> < n" by (simp add: floor_less_iff)
    then show ?thesis using round_half_even_cases [of q] by linarith
  qed
qed

lemma round_half_even_ge: "of_int n \<le> q \<Longrightarrow> n \<le> round_half_even q"
proof -
  assume "of_int n \<le> q"
  then have "n \<le> \<lfloor>q\<rfloor>" by (simp add: le_floor_iff)
  then show ?thesis using round_half_even_cases [of q] by linarith
qed

lemma round_half_even_error: "\<bar>of_int (round_half_even q) - q\<bar> \<le> 1 / 2"
proof -
  have "of_int \<lfloor>q\<rfloor> \<le> q" "q < of_int \<lfloor>q\<rfloor> + 1" by linarith+
  then show ?thesis by (auto simp add: round_half_even_def Let_def)
qed

lemma round_half_even_near:
  assumes "\<bar>q - of_int n\<bar> < 1 / 2"
  shows "round_half_even q = n"
proof -
  have "\<bar>of_int (round_half_even q) - q\<bar> \<le> 1 / 2" by (rule round_half_even_error)
  then have "\<bar>(of_int (round_half_even q) :: real) - of_int n\<bar> < 1" using assms by linarith
  then have "\<bar>of_int (round_half_even q - n) :: real\<bar> < 1" by simp
  then have "\<bar>round_half_even q - n\<bar> < 1" by linarith
  then show ?thesis by simp
qed


lemma binade_bounds:
  assumes "x \<noteq> 0"
  shows "2 powr of_int (binade x) \<le> \<bar>x\<bar>" and "\<bar>x\<bar> < 2 powr (of_int (binade x) + 1)"
proof -
  have "\<lfloor>log 2 \<bar>x\<bar>\<rfloor> = binade x" by (simp add: binade_def)
  then have "2 powr of_int (binade x) \<le> \<bar>x\<bar> \<and> \<bar>x\<bar> < 2 powr of_int (binade x + 1)"
    using assms floor_log_eq_powr_iff [of "\<bar>x\<bar>" 2 "binade x"] by simp
  then show "2 powr of_int (binade x) \<le> \<bar>x\<bar>" and "\<bar>x\<bar> < 2 powr (of_int (binade x) + 1)"
    by simp_all
qed

lemma binade_le:
  assumes "x \<noteq> 0" and "\<bar>x\<bar> < 2 powr (of_int k + 1)"
  shows "binade x \<le> k"
proof -
  have "(2::real) powr of_int (binade x) < 2 powr (of_int k + 1)"
    using binade_bounds(1) [OF assms(1)] assms(2) by linarith
  then have "(of_int (binade x) :: real) < of_int k + 1" by simp
  then show ?thesis by linarith
qed

lemma binade_eqI:
  assumes "2 powr of_int k \<le> \<bar>x\<bar>" and "\<bar>x\<bar> < 2 powr (of_int k + 1)"
  shows "binade x = k"
proof -
  have "0 < \<bar>x\<bar>" using assms(1) powr_gt_zero [of 2 "of_int k"] by linarith
  then show ?thesis
    using assms floor_log_eq_powr_iff [of "\<bar>x\<bar>" 2 k] by (simp add: binade_def)
qed

text \<open>Rounding never crosses a number that is representable at the scale of the argument.\<close>

lemma fl_bound:
  assumes x: "x \<noteq> 0" and k: "binade x - 52 \<le> k"
  shows "x \<le> of_int n * 2 powr of_int k \<Longrightarrow> fl x \<le> of_int n * 2 powr of_int k"
    and "of_int n * 2 powr of_int k \<le> x \<Longrightarrow> of_int n * 2 powr of_int k \<le> fl x"
proof -
  let ?u = "binade x - 52"
  let ?p = "2 powr of_int ?u :: real"
  have p: "0 < ?p" by simp
  obtain j :: nat where j: "k = ?u + int j" using k by (metis zle_iff_zadd)
  have "2 powr of_int k = ?p * 2 powr of_int (int j)"
    by (simp only: j of_int_add powr_add)
  also have "2 powr of_int (int j) = (2::real) ^ j" by (simp add: powr_realpow)
  finally have B: "of_int n * 2 powr of_int k = of_int (n * 2 ^ j) * ?p" by simp
  have flx: "fl x = of_int (round_half_even (x / ?p)) * ?p" using x by (simp add: fl_def)
  {
    assume "x \<le> of_int n * 2 powr of_int k"
    then have "x \<le> of_int (n * 2 ^ j) * ?p" by (simp only: B)
    then have "x / ?p \<le> of_int (n * 2 ^ j)" using p by (simp add: pos_divide_le_eq)
    then have "round_half_even (x / ?p) \<le> n * 2 ^ j" by (rule round_half_even_le)
    then have "(of_int (round_half_even (x / ?p)) :: real) \<le> of_int (n * 2 ^ j)" by (simp only: of_int_le_iff)
    then have "of_int (round_half_even (x / ?p)) * ?p \<le> of_int (n * 2 ^ j) * ?p"
      using p by (simp only: mult_le_cancel_right_pos)
    then show "fl x \<le> of_int n * 2 powr of_int k" by (simp only: B flx)
  }
  {
    assume "of_int n * 2 powr of_int k \<le> x"
    then have "of_int (n * 2 ^ j) * ?p \<le> x" by (simp only: B)
    then have "of_int (n * 2 ^ j) \<le> x / ?p" using p by (simp add: pos_le_divide_eq)
    then have "n * 2 ^ j \<le> round_half_even (x / ?p)" by (rule round_half_even_ge)
    then have "(of_int (n * 2 ^ j) :: real) \<le> of_int (round_half_even (x / ?p))" by (simp only: of_int_le_iff)
    then have "of_int (n * 2 ^ j) * ?p \<le> of_int (round_half_even (x / ?p)) * ?p"
      using p by (simp only: mult_le_cancel_right_pos)
    then show "of_int n * 2 powr of_int k \<le> fl x" by (simp only: B flx)
  }
qed

lemma fl_zero: "fl 0 = 0"
  by (simp add: fl_def)

lemma fl_pos: "0 < x \<Longrightarrow> 0 < fl x"
proof -
  assume x: "0 < x"
  then have "of_int 1 * 2 powr of_int (binade x) \<le> x" using binade_bounds(1) [of x] by simp
  then have "of_int 1 * 2 powr of_int (binade x) \<le> fl x"
    using x by (intro fl_bound(2)) simp_all
  then have "2 powr of_int (binade x) \<le> fl x" by simp
  then show ?thesis using powr_gt_zero [of 2 "of_int (binade x)"] by linarith
qed

lemma fl_neg: "x < 0 \<Longrightarrow> fl x < 0"
proof -
  assume x: "x < 0"
  then have "x \<le> of_int (- 1) * 2 powr of_int (binade x)" using binade_bounds(1) [of x] by simp
  then have "fl x \<le> of_int (- 1) * 2 powr of_int (binade x)"
    using x by (intro fl_bound(1)) simp_all
  then have "fl x \<le> - (2 powr of_int (binade x))" by simp
  then show ?thesis using powr_gt_zero [of 2 "of_int (binade x)"] by linarith
qed


text \<open>A number with at most 53 significant bits is not changed by rounding.\<close>

lemma fl_exact:
  assumes "\<bar>n\<bar> < 2 ^ 53"
  shows "fl (of_int n * 2 powr of_int k) = of_int n * 2 powr of_int k"
proof (cases "n = 0")
  case True
  then show ?thesis by (simp add: fl_zero)
next
  case False
  let ?x = "of_int n * 2 powr of_int k :: real"
  have x: "?x \<noteq> 0" using False by simp
  have "\<bar>of_int n :: real\<bar> < 2 ^ 53" using assms by (metis of_int_abs of_int_less_numeral_power_cancel_iff)
  then have "\<bar>?x\<bar> < 2 ^ 53 * 2 powr of_int k" by (simp add: abs_mult)
  moreover have "(2::real) powr (of_int (k + 52) + 1) = 2 ^ 53 * 2 powr of_int k"
  proof -
    have "of_int (k + 52) + 1 = (53::real) + of_int k" by simp
    moreover have "(2::real) powr (53 + of_int k) = 2 powr 53 * 2 powr of_int k" by (rule powr_add)
    moreover have "(2::real) powr 53 = 2 ^ 53" by simp
    ultimately show ?thesis by (simp only:)
  qed
  ultimately have "\<bar>?x\<bar> < 2 powr (of_int (k + 52) + 1)" by (simp only:)
  then have "binade ?x \<le> k + 52" using x by (intro binade_le)
  then have u: "binade ?x - 52 \<le> k" by simp
  have "fl ?x \<le> ?x" using x u by (rule fl_bound(1)) simp
  moreover have "?x \<le> fl ?x" using x u by (rule fl_bound(2)) simp
  ultimately show ?thesis by simp
qed

lemma fl_upper:
  assumes "x \<le> of_int n * 2 powr of_int k" and "\<bar>x\<bar> < 2 powr (of_int k + 53)"
  shows "fl x \<le> of_int n * 2 powr of_int k"
proof (cases "x = 0")
  case True
  then show ?thesis using assms(1) by (simp add: fl_zero)
next
  case False
  have "of_int k + 53 = (of_int (k + 52) + 1 :: real)" by simp
  then have "\<bar>x\<bar> < 2 powr (of_int (k + 52) + 1)" using assms(2) by (simp only:)
  then have "binade x \<le> k + 52" using False by (intro binade_le)
  then have "binade x - 52 \<le> k" by simp
  then show ?thesis using False assms(1) by (intro fl_bound(1))
qed

lemma fl_lower:
  assumes "of_int n * 2 powr of_int k \<le> x" and "\<bar>x\<bar> < 2 powr (of_int k + 53)"
  shows "of_int n * 2 powr of_int k \<le> fl x"
proof (cases "x = 0")
  case True
  then show ?thesis using assms(1) by (simp add: fl_zero)
next
  case False
  have "of_int k + 53 = (of_int (k + 52) + 1 :: real)" by simp
  then have "\<bar>x\<bar> < 2 powr (of_int (k + 52) + 1)" using assms(2) by (simp only:)
  then have "binade x \<le> k + 52" using False by (intro binade_le)
  then have "binade x - 52 \<le> k" by simp
  then show ?thesis using False assms(1) by (intro fl_bound(2))
qed

lemma fl_int: "\<bar>n\<bar> < 2 ^ 53 \<Longrightarrow> fl (of_int n) = of_int n"
  using fl_exact [of n 0] by simp

lemma pow2_shift: "of_int (2 ^ 53) * 2 powr of_int u = of_int 1 * (2::real) powr of_int (u + 53)"
proof -
  have "(2::real) powr of_int (u + 53) = 2 powr (53 + of_int u)" by (simp add: add.commute)
  also have "\<dots> = 2 powr 53 * 2 powr of_int u" by (rule powr_add)
  also have "(2::real) powr 53 = 2 ^ 53" by simp
  finally show ?thesis by simp
qed

lemma fl_upper_pos:
  assumes "0 < x" and "x \<le> of_int n * 2 powr of_int k" and "n < 2 ^ 53"
  shows "fl x \<le> of_int n * 2 powr of_int k"
proof -
  have "(of_int n :: real) < of_int (2 ^ 53)" using assms(3) by (simp only: of_int_less_iff)
  then have "of_int n * 2 powr of_int k < of_int (2 ^ 53) * (2::real) powr of_int k"
    by (simp only: mult_less_cancel_right_pos powr_gt_zero)
  then have "x < of_int (2 ^ 53) * 2 powr of_int k" using assms(2) by linarith
  then have "x < 2 powr of_int (k + 53)" by (simp only: pow2_shift of_int_1 mult_1)
  then have "\<bar>x\<bar> < 2 powr (of_int k + 53)" using assms(1) by simp
  then show ?thesis using assms(2) by (intro fl_upper)
qed

lemma fl_lower_neg:
  assumes "x < 0" and "of_int n * 2 powr of_int k \<le> x" and "- (2 ^ 53) < n"
  shows "of_int n * 2 powr of_int k \<le> fl x"
proof -
  have "(of_int (- n) :: real) < of_int (2 ^ 53)" using assms(3) by (simp only: of_int_less_iff)
  then have "of_int (- n) * 2 powr of_int k < of_int (2 ^ 53) * (2::real) powr of_int k"
    by (simp only: mult_less_cancel_right_pos powr_gt_zero)
  moreover have "- x \<le> of_int (- n) * 2 powr of_int k" using assms(2) by simp
  ultimately have "- x < of_int (2 ^ 53) * 2 powr of_int k" by linarith
  then have "- x < 2 powr of_int (k + 53)" by (simp only: pow2_shift of_int_1 mult_1)
  then have "\<bar>x\<bar> < 2 powr (of_int k + 53)" using assms(1) by simp
  then show ?thesis using assms(2) by (intro fl_lower)
qed


section \<open>Angle normalisation in double precision\<close>

lemma two_Math_PI: "2 * Math_PI = of_int 7074237752028440 * 2 powr of_int (- 50)"
  by (simp add: Math_PI_def powr_minus divide_simps)

lemma two_Math_PI_bounds: "4 < 2 * Math_PI" "2 * Math_PI < 8"
  by (simp_all add: Math_PI_def)

lemma fl_binade2:
  assumes "4 \<le> x" and "x < 8"
  shows "fl x = of_int (round_half_even (x * 2 ^ 50)) / 2 ^ 50"
proof -
  have "binade x = 2" using assms by (intro binade_eqI) simp_all
  moreover have "x \<noteq> 0" using assms by simp
  ultimately show ?thesis by (simp add: fl_def powr_minus divide_simps)
qed

lemma fl_to_two_Math_PI:
  assumes "- (1 / 2 ^ 51) \<le> r" and "r < 0"
  shows "fl (r + 2 * Math_PI) = 2 * Math_PI"
proof -
  let ?x = "r + 2 * Math_PI"
  have "- (1 / 2 ^ 51) \<le> r" by (rule assms)
  then have x: "4 \<le> ?x" "?x < 8" using assms(2) by (simp_all add: Math_PI_def)
  have q: "?x * 2 ^ 50 = of_int 7074237752028440 + r * 2 ^ 50"
    by (simp add: Math_PI_def algebra_simps)
  have "round_half_even (?x * 2 ^ 50) = 7074237752028440"
  proof (cases "r = - (1 / 2 ^ 51)")
    case True
    then have xv: "?x * 2 ^ 50 = 7074237752028440 - 1 / 2" by (simp add: Math_PI_def)
    have fv: "\<lfloor>7074237752028440 - 1 / 2 :: real\<rfloor> = 7074237752028439" by linarith
    have "round_half_even (7074237752028440 - 1 / 2) = 7074237752028440"
      unfolding round_half_even_def Let_def fv by simp
    then show ?thesis by (simp only: xv)
  next
    case False
    then have "- (1 / 2 ^ 51) < r" using assms(1) by simp
    then have "- (1 / 2) < r * 2 ^ 50" by (simp add: field_simps)
    moreover have "r * 2 ^ 50 < 0" using assms(2) by (simp add: mult_less_0_iff)
    ultimately have "\<bar>r * 2 ^ 50\<bar> < 1 / 2" by linarith
    moreover have "?x * 2 ^ 50 - of_int 7074237752028440 = r * 2 ^ 50" using q by linarith
    ultimately have "\<bar>?x * 2 ^ 50 - of_int 7074237752028440\<bar> < 1 / 2" by (simp only:)
    then show ?thesis by (rule round_half_even_near)
  qed
  then show ?thesis using x by (simp add: fl_binade2 Math_PI_def)
qed


lemma fl_range_two_Math_PI:
  assumes "0 < x" and "x \<le> 2 * Math_PI"
  shows "0 < fl x" and "fl x \<le> 2 * Math_PI"
proof -
  show "0 < fl x" using assms(1) by (rule fl_pos)
  have "\<bar>x\<bar> < 2 powr (of_int 2 + 1)" using assms two_Math_PI_bounds by simp
  then have "binade x \<le> 2" using assms by (intro binade_le) simp_all
  then have "binade x - 52 \<le> - 50" by simp
  moreover have "x \<le> of_int 7074237752028440 * 2 powr of_int (- 50)"
    using assms(2) by (simp only: two_Math_PI)
  ultimately have "fl x \<le> of_int 7074237752028440 * 2 powr of_int (- 50)"
    using assms(1) by (intro fl_bound(1)) simp_all
  then show "fl x \<le> 2 * Math_PI" by (simp only: two_Math_PI)
qed


lemma js_trunc_error: "\<bar>q - of_int (js_trunc q)\<bar> < 1"
  unfolding js_trunc_def by (cases "0 \<le> q") (simp_all, linarith+)

lemma js_rem_range:
  assumes "0 < b"
  shows "- b < js_rem a b" and "js_rem a b < b"
proof -
  have "js_rem a b = b * (a / b - of_int (js_trunc (a / b)))"
    using assms by (simp add: js_rem_def algebra_simps)
  moreover have "\<bar>b * (a / b - of_int (js_trunc (a / b)))\<bar> < b * 1"
    unfolding abs_mult using assms js_trunc_error [of "a / b"]
    by (simp only: abs_of_pos mult_less_cancel_left_pos)
  ultimately have "\<bar>js_rem a b\<bar> < b" by simp
  then show "- b < js_rem a b" and "js_rem a b < b" by linarith+
qed

lemma normalizeAngle_fp_range: "0 \<le> normalizeAngle_fp a \<and> normalizeAngle_fp a \<le> 2 * Math_PI"
proof -
  let ?r = "js_rem a (2 * Math_PI)"
  have T: "0 < 2 * Math_PI" using two_Math_PI_bounds by simp
  have r: "- (2 * Math_PI) < ?r" "?r < 2 * Math_PI" using T by (rule js_rem_range)+
  show ?thesis
  proof (cases "?r < 0")
    case True
    then have "0 < ?r + 2 * Math_PI" "?r + 2 * Math_PI \<le> 2 * Math_PI" using r by simp_all
    then have "0 < fl (?r + 2 * Math_PI)" "fl (?r + 2 * Math_PI) \<le> 2 * Math_PI"
      by (rule fl_range_two_Math_PI)+
    then show ?thesis using True by (simp add: normalizeAngle_fp_def Let_def)
  next
    case False
    then show ?thesis using r by (simp add: normalizeAngle_fp_def Let_def)
  qed
qed


lemma js_rem_small: "0 < b \<Longrightarrow> - b < a \<Longrightarrow> a \<le> 0 \<Longrightarrow> js_rem a b = a"
proof -
  assume b: "0 < b" and a: "- b < a" "a \<le> 0"
  show ?thesis
  proof (cases "a = 0")
    case True
    then show ?thesis by (simp add: js_rem_def js_trunc_def)
  next
    case False
    then have q: "a / b < 0" "- 1 < a / b" using a b by (simp_all add: field_simps)
    then have "\<lceil>a / b\<rceil> = 0" by linarith
    then show ?thesis using q(1) by (simp add: js_rem_def js_trunc_def)
  qed
qed

lemma normalizeAngle_fp_tiny:
  assumes "- (1 / 2 ^ 51) \<le> t" and "t < 0"
  shows "normalizeAngle_fp t = 2 * Math_PI"
proof -
  have "- (2 * Math_PI) < t" using assms(1) by (simp add: Math_PI_def)
  then have "js_rem t (2 * Math_PI) = t"
    using assms(2) two_Math_PI_bounds by (intro js_rem_small) simp_all
  moreover have "fl (t + 2 * Math_PI) = 2 * Math_PI" using assms by (rule fl_to_two_Math_PI)
  ultimately show ?thesis using assms(2) by (simp add: normalizeAngle_fp_def Let_def)
qed





section \<open>Angular distance and collisions\<close>

lemma angularDistance_min:
  "spec_angularDistance a1 a2 =
     min \<bar>normalizeAngle a1 - normalizeAngle a2\<bar> (2 * pi - \<bar>normalizeAngle a1 - normalizeAngle a2\<bar>)"
proof -
  let ?n1 = "normalizeAngle a1" and ?n2 = "normalizeAngle a2"
  have r1: "0 \<le> ?n1" "?n1 < 2 * pi" and r2: "0 \<le> ?n2" "?n2 < 2 * pi"
    using normalizeAngle_range by blast+
  consider "?n1 = ?n2" | "?n2 < ?n1" | "?n1 < ?n2" by linarith
  then show ?thesis
  proof cases
    case 1
    have "normalizeAngle 0 = 0" by (rule normalizeAngle_id) simp_all
    then show ?thesis using 1 by (simp add: spec_angularDistance_def)
  next
    case 2
    have a: "normalizeAngle (?n1 - ?n2) = ?n1 - ?n2"
      by (rule normalizeAngle_id) (use 2 r1 r2 in linarith)+
    have b: "normalizeAngle (?n2 - ?n1) = ?n2 - ?n1 + 2 * pi"
      by (rule normalizeAngle_neg) (use 2 r1 r2 in linarith)+
    show ?thesis using 2 by (simp add: spec_angularDistance_def a b min_def)
  next
    case 3
    have a: "normalizeAngle (?n2 - ?n1) = ?n2 - ?n1"
      by (rule normalizeAngle_id) (use 3 r1 r2 in linarith)+
    have b: "normalizeAngle (?n1 - ?n2) = ?n1 - ?n2 + 2 * pi"
      by (rule normalizeAngle_neg) (use 3 r1 r2 in linarith)+
    show ?thesis using 3 by (simp add: spec_angularDistance_def a b min_def)
  qed
qed

lemma normalizeAngle_deg:
  "0 \<le> d \<Longrightarrow> d < 360 \<Longrightarrow> normalizeAngle (degToRad d) = degToRad d"
  by (rule normalizeAngle_id) (simp_all add: degToRad_def field_simps)

lemma normalizeAngle_deg_neg:
  "- 360 \<le> d \<Longrightarrow> d < 0 \<Longrightarrow> normalizeAngle (degToRad d) = degToRad (d + 360)"
proof -
  assume d: "- 360 \<le> d" "d < 0"
  have "pi * (- 360) \<le> pi * d" using d by (intro mult_left_mono) simp_all
  then have lo: "- (2 * pi) \<le> degToRad d" by (simp add: degToRad_def mult.commute)
  have "pi * d < 0" using d by (simp add: mult_less_0_iff)
  then have hi: "degToRad d < 0" by (simp add: degToRad_def mult.commute)
  have "normalizeAngle (degToRad d) = degToRad d + 2 * pi"
    using lo hi by (rule normalizeAngle_neg)
  then show ?thesis by (simp add: degToRad_def field_simps)
qed

lemma degToRad_less: "degToRad a < degToRad b \<longleftrightarrow> a < b"
  by (simp add: degToRad_def field_simps)

lemma degToRad_diff: "degToRad a - degToRad b = degToRad (a - b)"
  by (simp add: degToRad_def field_simps)

lemma degToRad_add: "degToRad a + degToRad b = degToRad (a + b)"
  by (simp add: degToRad_def field_simps)

lemma degToRad_abs: "\<bar>degToRad a\<bar> = degToRad \<bar>a\<bar>"
  by (simp add: degToRad_def abs_mult)

lemma two_pi_deg: "2 * pi = degToRad 360"
  by (simp add: degToRad_def)

lemma degToRad_min: "min (degToRad a) (degToRad b) = degToRad (min a b)"
  by (simp add: min_def degToRad_def field_simps)

text \<open>
  C8. \<open>angleCollision a1 a2 minSep\<close> holds exactly when the minimum of the forward and the
  backward angular distance between the normalized angles is below \<open>minSep\<close>; across the
  0/360 boundary, 355 and 5 degrees are 10 degrees apart and collide for a separation of 20.
\<close>

theorem angleCollision_spec:
  "angleCollision a1 a2 minSep = (spec_angularDistance a1 a2 < minSep)
   \<and> spec_angularDistance (degToRad 355) (degToRad 5) = degToRad 10
   \<and> angleCollision (degToRad 355) (degToRad 5) (degToRad 20)"
proof -
  have gen: "\<And>a b m. angleCollision a b m = (spec_angularDistance a b < m)"
    by (simp add: angleCollision_def angularDistance_min Let_def)
  have n1: "normalizeAngle (degToRad 355) = degToRad 355"
    by (rule normalizeAngle_deg) simp_all 
  have n2: "normalizeAngle (degToRad 5) = degToRad 5"
    by (rule normalizeAngle_deg) simp_all
  have d: "spec_angularDistance (degToRad 355) (degToRad 5) = degToRad 10"
    by (simp add: angularDistance_min n1 n2 degToRad_diff degToRad_abs two_pi_deg degToRad_min)
  have "degToRad 10 < degToRad 20" by (simp add: degToRad_less)
  then show ?thesis using gen d by simp
qed

section \<open>Constraining an angle\<close>

lemma angleCollision_deg:
  assumes "0 \<le> a" "a < 360" "0 \<le> b" "b < 360"
  shows "angleCollision (degToRad a) (degToRad b) (degToRad m) = (min \<bar>a - b\<bar> (360 - \<bar>a - b\<bar>) < m)"
  using assms
  by (simp add: angleCollision_def Let_def normalizeAngle_deg degToRad_diff degToRad_abs
      two_pi_deg degToRad_min degToRad_less)

lemma constrainAngle_example:
  "constrainAngle (degToRad 5) [degToRad 0, degToRad 90] (degToRad 10) = degToRad 10"
  by (simp add: constrainAngle_def angleCollision_deg normalizeAngle_deg normalizeAngle_deg_neg
      degToRad_add degToRad_diff degToRad_abs degToRad_less Let_def)

text \<open>
  C7. \<open>constrainAngle\<close> visits the existing angles in order and, on a collision, moves the
  proposed angle to \<open>existing + minSep\<close> or \<open>existing - minSep\<close> (normalized), whichever has
  the smaller absolute difference of normalized values to it. That is not the smaller angular
  distance when the two lie on different sides of 0: proposing 2 degrees against an existing
  angle of 5 degrees with a separation of 10 yields 15 degrees (13 degrees away), although 355
  degrees is only 7 degrees away.
\<close>

theorem constrainAngle_wraparound:
  "constrainAngle (degToRad 2) [degToRad 5] (degToRad 10) = degToRad 15
   \<and> spec_angularDistance (degToRad 2) (degToRad 15) = degToRad 13
   \<and> spec_angularDistance (degToRad 2) (degToRad 355) = degToRad 7
   \<and> degToRad 7 < degToRad 13"
proof -
  have c: "constrainAngle (degToRad 2) [degToRad 5] (degToRad 10) = degToRad 15"
    by (simp add: constrainAngle_def angleCollision_deg normalizeAngle_deg normalizeAngle_deg_neg
      degToRad_add degToRad_diff degToRad_abs degToRad_less Let_def)
  have d1: "spec_angularDistance (degToRad 2) (degToRad 15) = degToRad 13"
    by (simp add: angularDistance_min normalizeAngle_deg degToRad_diff degToRad_abs two_pi_deg
        degToRad_min)
  have d2: "spec_angularDistance (degToRad 2) (degToRad 355) = degToRad 7"
    by (simp add: angularDistance_min normalizeAngle_deg degToRad_diff degToRad_abs two_pi_deg
        degToRad_min)
  show ?thesis using c d1 d2 by (simp add: degToRad_less)
qed

section \<open>Apparent wind in double precision\<close>

lemma arctan_le_self: "0 \<le> x \<Longrightarrow> arctan x \<le> x"
proof -
  assume x: "0 \<le> x"
  have "0 - arctan 0 \<le> x - arctan x"
  proof (rule DERIV_nonneg_imp_nondecreasing [OF x])
    fix t :: real
    have "DERIV (\<lambda>t. t - arctan t) t :> 1 - inverse (1 + t\<^sup>2)"
      by (auto intro!: derivative_eq_intros)
    moreover have "inverse (1 + t\<^sup>2) \<le> 1" by (simp add: inverse_le_1_iff)
    ultimately show "\<exists>y. DERIV (\<lambda>t. t - arctan t) t :> y \<and> 0 \<le> y" by (intro exI [of _ "1 - inverse (1 + t\<^sup>2)"]) simp
  qed
  then show ?thesis by simp
qed

text \<open>
  C1. For every true wind and boat, and whatever the functions of \<open>Math\<close> return,
  \<open>calculateApparentWind\<close> converts both inputs with \<open>polarToCartesian\<close>, subtracts the boat
  vector from the true-wind vector componentwise and converts the difference back with
  \<open>cartesianToPolar\<close>; the returned angle is \<open>normalizeAngle\<close> of the \<open>atan2\<close> of the difference and
  lies in the closed interval from 0 to \<open>2 * Math.PI\<close>, the returned speed is \<open>max 0\<close> of the
  magnitude and is never negative.
\<close>

theorem calculateApparentWind_fp_spec:
  fixes L :: MathLib and trueWind :: WindData and boat :: BoatData
  defines "d \<equiv> subtractVectors_fp
                 (polarToCartesian_fp L \<lparr>p_angle = w_angle trueWind, magnitude = w_speed trueWind\<rparr>)
                 (polarToCartesian_fp L \<lparr>p_angle = heading boat, magnitude = b_speed boat\<rparr>)"
  defines "r \<equiv> calculateApparentWind_fp L trueWind boat"
  shows "vx d = fl (fl (w_speed trueWind * m_cos L (w_angle trueWind)) - fl (b_speed boat * m_cos L (heading boat)))
       \<and> vy d = fl (fl (w_speed trueWind * m_sin L (w_angle trueWind)) - fl (b_speed boat * m_sin L (heading boat)))
       \<and> w_angle r = normalizeAngle_fp (p_angle (cartesianToPolar_fp L d))
       \<and> p_angle (cartesianToPolar_fp L d) = m_atan2 L (vy d) (vx d)
       \<and> w_speed r = max 0 (magnitude (cartesianToPolar_fp L d))
       \<and> magnitude (cartesianToPolar_fp L d) = m_sqrt L (fl (fl (vx d * vx d) + fl (vy d * vy d)))
       \<and> 0 \<le> w_angle r \<and> w_angle r \<le> 2 * Math_PI
       \<and> 0 \<le> w_speed r"
proof -
  have a: "w_angle r = normalizeAngle_fp (p_angle (cartesianToPolar_fp L d))"
    by (simp add: r_def d_def calculateApparentWind_fp_def Let_def)
  have m: "w_speed r = max 0 (magnitude (cartesianToPolar_fp L d))"
    by (simp add: r_def d_def calculateApparentWind_fp_def Let_def)
  have c: "vx d = fl (fl (w_speed trueWind * m_cos L (w_angle trueWind)) - fl (b_speed boat * m_cos L (heading boat)))"
    "vy d = fl (fl (w_speed trueWind * m_sin L (w_angle trueWind)) - fl (b_speed boat * m_sin L (heading boat)))"
    by (simp_all add: d_def subtractVectors_fp_def polarToCartesian_fp_def)
  have p: "p_angle (cartesianToPolar_fp L d) = m_atan2 L (vy d) (vx d)"
    "magnitude (cartesianToPolar_fp L d) = m_sqrt L (fl (fl (vx d * vx d) + fl (vy d * vy d)))"
    by (simp_all add: cartesianToPolar_fp_def)
  have r1: "0 \<le> w_angle r" "w_angle r \<le> 2 * Math_PI"
    using normalizeAngle_fp_range [of "p_angle (cartesianToPolar_fp L d)"] by (simp_all only: a)
  have r2: "0 \<le> w_speed r" by (simp only: m max.cobounded1)
  show ?thesis using c a p m r1 r2 by blast
qed

text \<open>
  The upper end is reached: for a true wind of 10 knots at angle 0 and a boat of 5 knots
  heading \<open>2^-60\<close>, the difference points just below the x axis, \<open>atan2\<close> is negative and
  at most \<open>2^-60\<close> in magnitude, and the returned angle is \<open>2 * Math.PI\<close>.
\<close>

theorem calculateApparentWind_reaches_two_pi:
  "w_angle (calculateApparentWind_fp roundedLib \<lparr>w_angle = 0, w_speed = 10\<rparr>
              \<lparr>heading = 1 / 2 ^ 60, b_speed = 5\<rparr>) = 2 * Math_PI"
proof -
  let ?h = "1 / 2 ^ 60 :: real"
  have h: "0 < ?h" "?h < 1" by simp_all
  have hpi: "?h < pi / 2" using pi_ge_two by simp
  \<comment> \<open>the true-wind vector is (10, 0)\<close>
  have one: "fl 1 = 1" using fl_int [of 1] by simp
  have ten: "fl 10 = 10" using fl_int [of 10] by simp
  \<comment> \<open>the boat vector\<close>
  have c0: "0 < cos ?h" using h hpi by (intro cos_gt_zero)
  have c1: "cos ?h \<le> 1" by simp
  have cpos: "0 < fl (cos ?h)" using c0 by (rule fl_pos)
  have "fl (cos ?h) \<le> of_int 1 * 2 powr of_int 0" using c0 by (intro fl_upper_pos) simp_all
  then have cle: "fl (cos ?h) \<le> 1" by simp
  have xpos: "0 < fl (5 * fl (cos ?h))" using cpos by (intro fl_pos) simp
  have "fl (5 * fl (cos ?h)) \<le> of_int 5 * 2 powr of_int 0" using cpos cle by (intro fl_upper_pos) simp_all
  then have xle: "fl (5 * fl (cos ?h)) \<le> 5" by simp
  have s0: "0 < sin ?h" using h pi_ge_two by (intro sin_gt_zero) simp_all
  have s1: "sin ?h \<le> ?h" using h by (intro sin_x_le_x) simp
  have spos: "0 < fl (sin ?h)" using s0 by (rule fl_pos)
  have "fl (sin ?h) \<le> of_int 1 * 2 powr of_int (- 60)"
    using s0 s1 by (intro fl_upper_pos) (simp_all add: powr_minus divide_simps)
  then have sle: "fl (sin ?h) \<le> 1 / 2 ^ 60" by (simp add: powr_minus divide_simps)
  have ypos: "0 < fl (5 * fl (sin ?h))" using spos by (intro fl_pos) simp
  have "fl (5 * fl (sin ?h)) \<le> of_int 5 * 2 powr of_int (- 60)"
    using spos sle by (intro fl_upper_pos) (simp_all add: powr_minus divide_simps)
  then have yle: "fl (5 * fl (sin ?h)) \<le> 5 / 2 ^ 60" by (simp add: powr_minus divide_simps)
  \<comment> \<open>the difference\<close>
  let ?dx = "fl (10 - fl (5 * fl (cos ?h)))"
  let ?dy = "fl (0 - fl (5 * fl (sin ?h)))"
  have "of_int 5 * 2 powr of_int 0 \<le> ?dx" using xpos xle by (intro fl_lower) simp_all
  then have dx: "5 \<le> ?dx" by simp
  have dyneg: "?dy < 0" using ypos by (intro fl_neg) simp
  have "of_int (- 5) * 2 powr of_int (- 60) \<le> ?dy"
    using ypos yle by (intro fl_lower_neg) (simp_all add: powr_minus divide_simps)
  then have dylo: "- (5 / 2 ^ 60) \<le> ?dy" by (simp add: powr_minus divide_simps)
  \<comment> \<open>its angle\<close>
  let ?z = "?dy / ?dx"
  have zneg: "?z < 0" using dyneg dx by (simp add: divide_neg_pos)
  have "- ?dy \<le> 5 / 2 ^ 60" using dylo by simp
  then have "- ?dy / ?dx \<le> (5 / 2 ^ 60) / 5"
    using dx dyneg by (intro frac_le) simp_all
  moreover have "- ?dy / ?dx = - ?z" by simp
  moreover have "(5 / 2 ^ 60) / 5 = (1 / 2 ^ 60 :: real)" by simp
  ultimately have "- ?z \<le> 1 / 2 ^ 60" by (simp only:)
  then have zlo: "- (1 / 2 ^ 60) \<le> ?z" by linarith
  have "arctan (- ?z) \<le> - ?z" using zneg by (intro arctan_le_self) simp
  then have alo: "- (1 / 2 ^ 60) \<le> arctan ?z" using zlo by (simp add: arctan_minus)
  have aneg: "arctan ?z < 0" using zneg by simp
  have at: "atan2 ?dy ?dx = arctan ?z" using dx by (simp add: atan2_def)
  let ?t = "fl (atan2 ?dy ?dx)"
  have tneg: "?t < 0" unfolding at using aneg by (rule fl_neg)
  have "of_int (- 1) * 2 powr of_int (- 60) \<le> fl (arctan ?z)"
    using alo aneg by (intro fl_lower_neg) (simp_all add: powr_minus divide_simps)
  moreover have "of_int (- 1) * 2 powr of_int (- 60) = - (1 / 2 ^ 60 :: real)"
    by (simp add: powr_minus divide_simps)
  ultimately have "- (1 / 2 ^ 60) \<le> ?t" by (simp only: at)
  then have tlo: "- (1 / 2 ^ 51) \<le> ?t" by simp
  have "normalizeAngle_fp ?t = 2 * Math_PI" using tlo tneg by (rule normalizeAngle_fp_tiny)
  then show ?thesis
    by (simp add: calculateApparentWind_fp_def polarToCartesian_fp_def subtractVectors_fp_def
        cartesianToPolar_fp_def roundedLib_def Let_def one ten fl_zero)
qed




section \<open>The store: derived apparent wind\<close>

lemma freshApparentWind_cong:
  "windRing s' = windRing s \<Longrightarrow> boatRing s' = boatRing s \<Longrightarrow> freshApparentWind s' = freshApparentWind s"
  by (simp add: freshApparentWind_def windSpeed_def boatSpeed_def split: number.splits)

lemma store_calculateApparentWind_fresh:
  "apparentWind (store_calculateApparentWind s) = freshApparentWind (store_calculateApparentWind s)"
proof -
  have "freshApparentWind (s\<lparr>apparentWind := freshApparentWind s\<rparr>) = freshApparentWind s"
    by (rule freshApparentWind_cong) simp_all
  then show ?thesis by (simp add: store_calculateApparentWind_def)
qed

lemma store_calculateApparentWind_fields:
  "windRing (store_calculateApparentWind s) = windRing s"
  "boatRing (store_calculateApparentWind s) = boatRing s"
  "canvas (store_calculateApparentWind s) = canvas s"
  "selectedRing (store_calculateApparentWind s) = selectedRing s"
  "isDragging (store_calculateApparentWind s) = isDragging s"
  "dragStart (store_calculateApparentWind s) = dragStart s"
  by (simp_all add: store_calculateApparentWind_def)

lemma updateCanvasDimensions_stale:
  "apparentWind (updateCanvasDimensions w h s) = apparentWind s"
  by (simp add: updateCanvasDimensions_def Let_def)

lemma updateCanvasDimensions_upper:
  "radius (windRing (updateCanvasDimensions w h s)) \<le> maxRadius (windRing (updateCanvasDimensions w h s))
   \<and> radius (boatRing (updateCanvasDimensions w h s)) \<le> maxRadius (boatRing (updateCanvasDimensions w h s))"
proof -
  let ?s' = "updateCanvasDimensions w h s"
  have "radius (windRing ?s') = min (radius (windRing s)) (maxRadius (windRing ?s'))"
    by (simp add: updateCanvasDimensions_def Let_def)
  moreover have "radius (boatRing ?s') = min (radius (boatRing s)) (maxRadius (boatRing ?s'))"
    by (simp add: updateCanvasDimensions_def Let_def)
  ultimately show ?thesis by (metis min.cobounded2)
qed

lemma moveSelectedRing_fresh:
  assumes "selectedRing s = Some sel"
  shows "apparentWind (moveSelectedRing d st s) = freshApparentWind (moveSelectedRing d st s)"
  unfolding moveSelectedRing_def
  by (simp only: assms option.case Let_def store_calculateApparentWind_fresh)

lemma updateRingDrag_fresh:
  assumes "selectedRing s = Some sel" and "dragStart s = Some start" and "isDragging s"
  shows "apparentWind (updateRingDrag p s) = freshApparentWind (updateRingDrag p s)"
  unfolding updateRingDrag_def
  by (simp only: assms option.case prod.case simp_thms if_False Let_def
      store_calculateApparentWind_fresh)

lemma updateRingDrag_app_fresh:
  assumes "selectedRing s = Some sel" and "isDragging s"
  shows "apparentWind (updateRingDrag_app p s) = freshApparentWind (updateRingDrag_app p s)"
  unfolding updateRingDrag_app_def
  by (simp only: assms option.case simp_thms if_False Let_def store_calculateApparentWind_fresh)

lemma calculateApparentWind_speed:
  "w_speed (calculateApparentWind \<lparr>w_angle = wa, w_speed = ws\<rparr> \<lparr>heading = bh, b_speed = bs\<rparr>)
     = sqrt ((ws * cos wa - bs * cos bh)\<^sup>2 + (ws * sin wa - bs * sin bh)\<^sup>2)"
  by (simp add: calculateApparentWind_def polarToCartesian_def subtractVectors_def
      cartesianToPolar_def Let_def power2_eq_square)

section \<open>The store: speed getters\<close>

text \<open>
  C6. The speed getters always return a number, the ratio
  \<open>(radius - minRadius) / (maxRadius - minRadius)\<close> times 30 knots for the wind ring and times
  20 knots for the boat ring. For \<open>minRadius < maxRadius\<close> and \<open>minRadius \<le> radius\<close> the speed
  is finite and not negative. The getters have no guard for collapsed bounds: for
  \<open>maxRadius = minRadius\<close> the division is by zero and the speed is \<open>NaN\<close> (for
  \<open>radius = minRadius\<close>), \<open>Infinity\<close> or \<open>-Infinity\<close>, not 0.
\<close>

theorem speed_getters_unguarded:
  "(minRadius (windRing s) < maxRadius (windRing s) \<longrightarrow> minRadius (windRing s) \<le> radius (windRing s) \<longrightarrow>
      windSpeed s = Finite ((radius (windRing s) - minRadius (windRing s))
                              / (maxRadius (windRing s) - minRadius (windRing s)) * 30)
      \<and> 0 \<le> (radius (windRing s) - minRadius (windRing s))
                / (maxRadius (windRing s) - minRadius (windRing s)) * 30)
   \<and> (minRadius (boatRing s) < maxRadius (boatRing s) \<longrightarrow> minRadius (boatRing s) \<le> radius (boatRing s) \<longrightarrow>
      boatSpeed s = Finite ((radius (boatRing s) - minRadius (boatRing s))
                              / (maxRadius (boatRing s) - minRadius (boatRing s)) * 20)
      \<and> 0 \<le> (radius (boatRing s) - minRadius (boatRing s))
                / (maxRadius (boatRing s) - minRadius (boatRing s)) * 20)
   \<and> (maxRadius (windRing s) = minRadius (windRing s) \<longrightarrow>
      windSpeed s = (if minRadius (windRing s) < radius (windRing s) then PosInfinity
                     else if radius (windRing s) < minRadius (windRing s) then NegInfinity
                     else NaN))
   \<and> (maxRadius (boatRing s) = minRadius (boatRing s) \<longrightarrow>
      boatSpeed s = (if minRadius (boatRing s) < radius (boatRing s) then PosInfinity
                     else if radius (boatRing s) < minRadius (boatRing s) then NegInfinity
                     else NaN))"
  by (simp add: windSpeed_def boatSpeed_def js_div_def Let_def)

theorem speed_getters_unguarded_witness:
  "windSpeed initialState = Finite (300 / 17) \<and> boatSpeed initialState = Finite 10
   \<and> windSpeed collapsedState = NaN \<and> boatSpeed collapsedState = NaN"
  using speed_getters_unguarded [of initialState] speed_getters_unguarded [of collapsedState]
  by (simp add: initialState_def collapsedState_def updateCanvasDimensions_def Let_def)

text \<open>
  A canvas of width or height 0 collapses the bounds and the radius of both rings to 0, and
  both speeds are \<open>NaN\<close>.
\<close>

theorem speed_getters_counterexample:
  "windSpeed (updateCanvasDimensions 0 0 initialState) = NaN
   \<and> windSpeed (updateCanvasDimensions 0 0 initialState) \<noteq> Finite 0
   \<and> boatSpeed (updateCanvasDimensions 0 0 initialState) = NaN
   \<and> boatSpeed (updateCanvasDimensions 0 0 initialState) \<noteq> Finite 0"
  by (simp add: windSpeed_def boatSpeed_def js_div_def initialState_def updateCanvasDimensions_def Let_def)

section \<open>The store: canvas dimensions\<close>

text \<open>
  C2. \<open>updateCanvasDimensions\<close> clamps the radius of each ring from above only
  (\<open>updateCanvasDimensions_upper\<close>). On the initial state, a canvas of 2000 by 2000 pixels
  leaves the wind ring at radius 180 below its new minimum 320, and the boat ring at radius
  120 below its new minimum 240.
\<close>

theorem updateCanvasDimensions_radius_below_min:
  "radius (windRing (updateCanvasDimensions 2000 2000 initialState)) = 180
   \<and> minRadius (windRing (updateCanvasDimensions 2000 2000 initialState)) = 320
   \<and> radius (boatRing (updateCanvasDimensions 2000 2000 initialState)) = 120
   \<and> minRadius (boatRing (updateCanvasDimensions 2000 2000 initialState)) = 240"
  by (simp add: updateCanvasDimensions_def initialState_def Let_def)

text \<open>
  Mounting the canvas at 800 by 600 pixels and resizing it to 400 by 300: the true wind goes
  from 17.5 to 30 knots, the boat from 8 to 20 knots at 45 degrees.
\<close>

lemma mounted_rings:
  "windRing mountedState = \<lparr>angle = 0, radius = 180, spokes = 3, minRadius = 96, maxRadius = 240\<rparr>"
  "boatRing mountedState = \<lparr>angle = pi / 4, radius = 120, spokes = 4, minRadius = 72, maxRadius = 192\<rparr>"
  by (simp_all add: mountedState_def initialize_def store_calculateApparentWind_def
      updateCanvasDimensions_def initialState_def Let_def degToRad_def)

lemma mounted_apparentWind:
  "apparentWind mountedState
     = Some (calculateApparentWind \<lparr>w_angle = 0, w_speed = 35 / 2\<rparr> \<lparr>heading = pi / 4, b_speed = 8\<rparr>)"
proof -
  have "apparentWind mountedState = freshApparentWind mountedState"
    unfolding mountedState_def initialize_def by (rule store_calculateApparentWind_fresh)
  then show ?thesis
    by (simp add: freshApparentWind_def windSpeed_def boatSpeed_def mounted_rings js_div_def Let_def)
qed

lemma resized_fresh:
  "freshApparentWind (handleResize 400 300 mountedState)
     = Some (calculateApparentWind \<lparr>w_angle = 0, w_speed = 30\<rparr> \<lparr>heading = pi / 4, b_speed = 20\<rparr>)"
  by (simp add: freshApparentWind_def windSpeed_def boatSpeed_def handleResize_def
      updateCanvasDimensions_def mounted_rings js_div_def Let_def)

lemma expand_small: "(35 / 2 - 8 * (c / 2))\<^sup>2 + (0 - 8 * (c / 2))\<^sup>2 = 1225 / 4 - 140 * c + 32 * (c * c)"
  for c :: real
  by (simp add: power2_eq_square algebra_simps)

lemma expand_large: "(30 - 20 * (c / 2))\<^sup>2 + (0 - 20 * (c / 2))\<^sup>2 = 900 - 600 * c + 200 * (c * c)"
  for c :: real
  by (simp add: power2_eq_square algebra_simps)

lemma speeds_differ:
  "sqrt ((35 / 2 * cos 0 - 8 * cos (pi / 4))\<^sup>2 + (35 / 2 * sin 0 - 8 * sin (pi / 4))\<^sup>2)
     \<noteq> sqrt ((30 * cos 0 - 20 * cos (pi / 4))\<^sup>2 + (30 * sin 0 - 20 * sin (pi / 4))\<^sup>2)"
proof
  assume "sqrt ((35 / 2 * cos 0 - 8 * cos (pi / 4))\<^sup>2 + (35 / 2 * sin 0 - 8 * sin (pi / 4))\<^sup>2)
     = sqrt ((30 * cos 0 - 20 * cos (pi / 4))\<^sup>2 + (30 * sin 0 - 20 * sin (pi / 4))\<^sup>2)"
  then have "(35 / 2 * cos 0 - 8 * cos (pi / 4))\<^sup>2 + (35 / 2 * sin 0 - 8 * sin (pi / 4))\<^sup>2
     = (30 * cos 0 - 20 * cos (pi / 4))\<^sup>2 + (30 * sin 0 - 20 * sin (pi / 4))\<^sup>2"
    by (simp only: real_sqrt_eq_iff)
  then have "(35 / 2 - 8 * (sqrt 2 / 2))\<^sup>2 + (0 - 8 * (sqrt 2 / 2))\<^sup>2
           = (30 - 20 * (sqrt 2 / 2))\<^sup>2 + (0 - 20 * (sqrt 2 / 2))\<^sup>2"
    by (simp only: cos_45 sin_45 cos_zero sin_zero mult_1_right mult_zero_right)
  then have "1225 / 4 - 140 * sqrt 2 + 32 * (sqrt 2 * sqrt 2) = 900 - 600 * sqrt 2 + 200 * (sqrt 2 * sqrt 2)"
    by (simp only: expand_small expand_large)
  moreover have "sqrt 2 * sqrt 2 = (2::real)" by simp
  ultimately have "1225 / 4 - 140 * sqrt 2 + 32 * 2 = 900 - 600 * sqrt 2 + 200 * (2::real)"
    by (simp only:)
  then have "460 * sqrt 2 = 3719 / 4" by simp
  moreover have "sqrt 2 < 2" using real_sqrt_less_iff [of 2 4] by simp
  ultimately show False by simp
qed

text \<open>
  C3. The drag update and the keyboard move end with the action \<open>calculateApparentWind\<close>
  (\<open>updateRingDrag_fresh\<close>, \<open>updateRingDrag_app_fresh\<close>, \<open>moveSelectedRing_fresh\<close>);
  \<open>updateCanvasDimensions\<close> changes the radius and the bounds of both rings and leaves
  \<open>apparentWind\<close> as it was (\<open>updateCanvasDimensions_stale\<close>). After the canvas is mounted
  the stored apparent wind is the derived one; after the resize handler it is not.
\<close>

theorem resize_leaves_apparentWind_stale:
  "apparentWind mountedState = freshApparentWind mountedState
   \<and> apparentWind (handleResize 400 300 mountedState) = apparentWind mountedState
   \<and> apparentWind (handleResize 400 300 mountedState) \<noteq> freshApparentWind (handleResize 400 300 mountedState)"
proof -
  have a: "apparentWind mountedState = freshApparentWind mountedState"
    unfolding mountedState_def initialize_def by (rule store_calculateApparentWind_fresh)
  have b: "apparentWind (handleResize 400 300 mountedState) = apparentWind mountedState"
    by (simp add: handleResize_def updateCanvasDimensions_stale)
  have "w_speed (calculateApparentWind \<lparr>w_angle = 0, w_speed = 35 / 2\<rparr> \<lparr>heading = pi / 4, b_speed = 8\<rparr>)
      \<noteq> w_speed (calculateApparentWind \<lparr>w_angle = 0, w_speed = 30\<rparr> \<lparr>heading = pi / 4, b_speed = 20\<rparr>)"
    unfolding calculateApparentWind_speed by (rule speeds_differ)
  then have "calculateApparentWind \<lparr>w_angle = 0, w_speed = 35 / 2\<rparr> \<lparr>heading = pi / 4, b_speed = 8\<rparr>
      \<noteq> calculateApparentWind \<lparr>w_angle = 0, w_speed = 30\<rparr> \<lparr>heading = pi / 4, b_speed = 20\<rparr>"
    by (rule contrapos_nn) (simp only:)
  then have c: "apparentWind (handleResize 400 300 mountedState) \<noteq> freshApparentWind (handleResize 400 300 mountedState)"
    by (simp only: b mounted_apparentWind resized_fresh option.inject not_False_eq_True)
  show ?thesis using a b c by blast
qed

section \<open>The store: dragging\<close>

lemma dragExample_fields:
  "windRing dragExample = \<lparr>angle = 0, radius = 180, spokes = 3, minRadius = 80, maxRadius = 250\<rparr>"
  "canvas dragExample = \<lparr>width = 800, height = 600, centerX = 400, centerY = 300\<rparr>"
  "selectedRing dragExample = Some Wind"
  "isDragging dragExample"
  "dragStart dragExample = Some \<lparr>vx = 590, vy = 300\<rparr>"
  by (simp_all add: dragExample_def startRingDrag_def initialState_def degToRad_def)

lemma sqrt_200: "sqrt 40000 = 200"
  using real_sqrt_abs [of 200] by simp

lemma sqrt_190: "sqrt 36100 = 190"
  using real_sqrt_abs [of 190] by simp

lemma normalizeAngle_0: "normalizeAngle 0 = 0"
  by (rule normalizeAngle_id) simp_all

text \<open>
  C5. While a drag session is active (a ring is selected and \<open>isDragging\<close> holds),
  \<open>updateRingDrag\<close> of app/stores/sailing.ts sets the selected ring from the pointer alone:
  the radius is the distance of the pointer from the canvas center, clamped by
  \<open>max minRadius (min maxRadius d)\<close>, the angle is the normalized \<open>atan2\<close> of the offset; the
  other ring is untouched, the pointer becomes the drag start and the apparent wind is
  recomputed. The pointer-move handler of composables/useSailingCanvas.ts, while its own drag
  flags are set, calls \<open>updateRingDrag\<close> of stores/sailing.ts, which needs a drag start and is
  relative to it: it either adds the change of the distance from the center to the radius
  (clamped) or turns the ring by the normalized change of the pointer's angle; for a change
  of angle of at most half a turn, the radius is changed when the change of distance exceeds
  the \<open>startRadius * deltaTheta\<close> of the source and the angle otherwise. The other ring is
  untouched, the pointer becomes the drag start and the apparent wind is recomputed.
\<close>

theorem pointer_move_update:
  fixes s :: SailingState and p :: Vector2D and sel :: RingType and g :: Gesture
  assumes sel: "selectedRing s = Some sel" and drag: "isDragging s"
  defines "dx \<equiv> vx p - centerX (canvas s)"
      and "dy \<equiv> vy p - centerY (canvas s)"
      and "ring \<equiv> ringOf sel s"
  shows "ringOf sel (updateRingDrag_app p s) =
           ring\<lparr>radius := max (minRadius ring) (min (maxRadius ring) (sqrt (dx * dx + dy * dy))),
                angle := normalizeAngle (atan2 dy dx)\<rparr>
       \<and> (minRadius ring \<le> maxRadius ring \<longrightarrow>
            minRadius ring \<le> radius (ringOf sel (updateRingDrag_app p s))
            \<and> radius (ringOf sel (updateRingDrag_app p s)) \<le> maxRadius ring)
       \<and> ringOf (otherRing sel) (updateRingDrag_app p s) = ringOf (otherRing sel) s
       \<and> dragStart (updateRingDrag_app p s) = Some p
       \<and> apparentWind (updateRingDrag_app p s) = freshApparentWind (updateRingDrag_app p s)
       \<and> (g_isDragging g \<and> currentRing g \<noteq> None \<longrightarrow>
            handleMouseMove p (g, s) = (g, updateRingDrag p s))
       \<and> (\<forall>start. dragStart s = Some start \<longrightarrow>
            (let sx = vx start - centerX (canvas s);
                 sy = vy start - centerY (canvas s);
                 startRadius = sqrt (sx\<^sup>2 + sy\<^sup>2);
                 deltaR = sqrt (dx\<^sup>2 + dy\<^sup>2) - startRadius;
                 deltaTheta = normalizeAngle (atan2 dy dx - atan2 sy sx);
                 byRadius = ring\<lparr>radius := max (minRadius ring) (min (maxRadius ring) (radius ring + deltaR))\<rparr>;
                 byAngle = ring\<lparr>angle := normalizeAngle (angle ring + deltaTheta)\<rparr>
             in (ringOf sel (updateRingDrag p s) = byRadius \<or> ringOf sel (updateRingDrag p s) = byAngle)
                \<and> (deltaTheta \<le> pi \<longrightarrow>
                     ringOf sel (updateRingDrag p s) =
                       (if \<bar>deltaR\<bar> > \<bar>startRadius * deltaTheta\<bar> then byRadius else byAngle))
                \<and> ringOf (otherRing sel) (updateRingDrag p s) = ringOf (otherRing sel) s
                \<and> dragStart (updateRingDrag p s) = Some p
                \<and> apparentWind (updateRingDrag p s) = freshApparentWind (updateRingDrag p s)))"
proof -
  have app_fresh: "apparentWind (updateRingDrag_app p s) = freshApparentWind (updateRingDrag_app p s)"
    using sel drag by (rule updateRingDrag_app_fresh)
  have app_ring: "ringOf sel (updateRingDrag_app p s) =
           ring\<lparr>radius := max (minRadius ring) (min (maxRadius ring) (sqrt (dx * dx + dy * dy))),
                angle := normalizeAngle (atan2 dy dx)\<rparr>"
    using sel drag
    by (cases sel)
       (simp_all add: dx_def dy_def ring_def updateRingDrag_app_def ringOf_def Let_def
          store_calculateApparentWind_fields)
  have app_other: "ringOf (otherRing sel) (updateRingDrag_app p s) = ringOf (otherRing sel) s"
    using sel drag
    by (cases sel)
       (simp_all add: updateRingDrag_app_def ringOf_def otherRing_def Let_def
          store_calculateApparentWind_fields)
  have app_start: "dragStart (updateRingDrag_app p s) = Some p"
    using sel drag
    by (cases sel)
       (simp_all add: updateRingDrag_app_def Let_def store_calculateApparentWind_fields)
  have app_bounds: "minRadius ring \<le> maxRadius ring \<longrightarrow>
            minRadius ring \<le> radius (ringOf sel (updateRingDrag_app p s))
            \<and> radius (ringOf sel (updateRingDrag_app p s)) \<le> maxRadius ring"
    by (simp add: app_ring)
  have handler: "g_isDragging g \<and> currentRing g \<noteq> None \<longrightarrow>
            handleMouseMove p (g, s) = (g, updateRingDrag p s)"
    by (simp add: handleMouseMove_def)
  have delta: "\<forall>start. dragStart s = Some start \<longrightarrow>
            (let sx = vx start - centerX (canvas s);
                 sy = vy start - centerY (canvas s);
                 startRadius = sqrt (sx\<^sup>2 + sy\<^sup>2);
                 deltaR = sqrt (dx\<^sup>2 + dy\<^sup>2) - startRadius;
                 deltaTheta = normalizeAngle (atan2 dy dx - atan2 sy sx);
                 byRadius = ring\<lparr>radius := max (minRadius ring) (min (maxRadius ring) (radius ring + deltaR))\<rparr>;
                 byAngle = ring\<lparr>angle := normalizeAngle (angle ring + deltaTheta)\<rparr>
             in (ringOf sel (updateRingDrag p s) = byRadius \<or> ringOf sel (updateRingDrag p s) = byAngle)
                \<and> (deltaTheta \<le> pi \<longrightarrow>
                     ringOf sel (updateRingDrag p s) =
                       (if \<bar>deltaR\<bar> > \<bar>startRadius * deltaTheta\<bar> then byRadius else byAngle))
                \<and> ringOf (otherRing sel) (updateRingDrag p s) = ringOf (otherRing sel) s
                \<and> dragStart (updateRingDrag p s) = Some p
                \<and> apparentWind (updateRingDrag p s) = freshApparentWind (updateRingDrag p s))"
  proof (intro allI impI)
    fix start assume st: "dragStart s = Some start"
    have fresh: "apparentWind (updateRingDrag p s) = freshApparentWind (updateRingDrag p s)"
      using sel st drag by (rule updateRingDrag_fresh)
    show "let sx = vx start - centerX (canvas s);
              sy = vy start - centerY (canvas s);
              startRadius = sqrt (sx\<^sup>2 + sy\<^sup>2);
              deltaR = sqrt (dx\<^sup>2 + dy\<^sup>2) - startRadius;
              deltaTheta = normalizeAngle (atan2 dy dx - atan2 sy sx);
              byRadius = ring\<lparr>radius := max (minRadius ring) (min (maxRadius ring) (radius ring + deltaR))\<rparr>;
              byAngle = ring\<lparr>angle := normalizeAngle (angle ring + deltaTheta)\<rparr>
          in (ringOf sel (updateRingDrag p s) = byRadius \<or> ringOf sel (updateRingDrag p s) = byAngle)
             \<and> (deltaTheta \<le> pi \<longrightarrow>
                  ringOf sel (updateRingDrag p s) =
                    (if \<bar>deltaR\<bar> > \<bar>startRadius * deltaTheta\<bar> then byRadius else byAngle))
             \<and> ringOf (otherRing sel) (updateRingDrag p s) = ringOf (otherRing sel) s
             \<and> dragStart (updateRingDrag p s) = Some p
             \<and> apparentWind (updateRingDrag p s) = freshApparentWind (updateRingDrag p s)"
      using fresh sel st drag
      by (cases sel)
         (simp_all add: dx_def dy_def ring_def updateRingDrag_def ringOf_def otherRing_def Let_def
            store_calculateApparentWind_fields)
  qed
  show ?thesis using app_ring app_bounds app_other app_start app_fresh handler delta by blast
qed

theorem pointer_move_update_witness:
  "radius (windRing (updateRingDrag_app \<lparr>vx = 600, vy = 300\<rparr> dragExample)) = 200
   \<and> angle (windRing (updateRingDrag_app \<lparr>vx = 600, vy = 300\<rparr> dragExample)) = 0
   \<and> dragStart (updateRingDrag_app \<lparr>vx = 600, vy = 300\<rparr> dragExample) = Some \<lparr>vx = 600, vy = 300\<rparr>
   \<and> handleMouseMove \<lparr>vx = 600, vy = 300\<rparr> (\<lparr>g_isDragging = True, currentRing = Some Wind\<rparr>, dragExample)
       = (\<lparr>g_isDragging = True, currentRing = Some Wind\<rparr>, updateRingDrag \<lparr>vx = 600, vy = 300\<rparr> dragExample)
   \<and> radius (windRing (updateRingDrag \<lparr>vx = 600, vy = 300\<rparr> dragExample)) = 190
   \<and> angle (windRing (updateRingDrag \<lparr>vx = 600, vy = 300\<rparr> dragExample)) = 0
   \<and> dragStart (updateRingDrag \<lparr>vx = 600, vy = 300\<rparr> dragExample) = Some \<lparr>vx = 600, vy = 300\<rparr>"
  using pointer_move_update [of dragExample Wind "\<lparr>vx = 600, vy = 300\<rparr>"
      "\<lparr>g_isDragging = True, currentRing = Some Wind\<rparr>"]
  by (simp add: dragExample_fields ringOf_def atan2_def sqrt_200 sqrt_190 normalizeAngle_0 Let_def)

text \<open>
  With the drag started at (590, 300) and the pointer moved to (600, 300), the pointer is 200
  pixels from the center (400, 300); the handler moves the wind ring from radius 180 to 190.
\<close>

theorem handleMouseMove_delta_counterexample:
  "radius (windRing (snd (handleMouseMove \<lparr>vx = 600, vy = 300\<rparr>
       (\<lparr>g_isDragging = True, currentRing = Some Wind\<rparr>, dragExample)))) = 190
   \<and> max (minRadius (windRing dragExample))
         (min (maxRadius (windRing dragExample))
              (distance \<lparr>vx = 600, vy = 300\<rparr>
                 \<lparr>vx = centerX (canvas dragExample), vy = centerY (canvas dragExample)\<rparr>)) = 200"
  by (simp add: handleMouseMove_def updateRingDrag_def dragExample_fields ringOf_def Let_def atan2_def
      distance_def sqrt_200 sqrt_190 normalizeAngle_0 store_calculateApparentWind_fields)

section \<open>The gesture handlers\<close>

lemma moveSelectedRing_fields:
  "selectedRing (moveSelectedRing d st s) = selectedRing s"
  "isDragging (moveSelectedRing d st s) = isDragging s"
  "dragStart (moveSelectedRing d st s) = dragStart s"
  by (cases "selectedRing s";
      simp add: moveSelectedRing_def setRing_def Let_def store_calculateApparentWind_fields)+

lemma moveSelectedRing_rings:
  assumes "selectedRing s = Some r"
  shows "ringOf r (moveSelectedRing d st s) =
           (case d of
              Left \<Rightarrow> (ringOf r s)\<lparr>angle := normalizeAngle (angle (ringOf r s) - degToRad 5)\<rparr>
            | Right \<Rightarrow> (ringOf r s)\<lparr>angle := normalizeAngle (angle (ringOf r s) + degToRad 5)\<rparr>
            | Up \<Rightarrow> (ringOf r s)\<lparr>radius := min (maxRadius (ringOf r s))
                                      (radius (ringOf r s) + maxRadius (ringOf r s) * st)\<rparr>
            | Down \<Rightarrow> (ringOf r s)\<lparr>radius := max (minRadius (ringOf r s))
                                      (radius (ringOf r s) - maxRadius (ringOf r s) * st)\<rparr>)"
    and "ringOf (otherRing r) (moveSelectedRing d st s) = ringOf (otherRing r) s"
  using assms
  by (cases r; cases d;
      simp add: moveSelectedRing_def setRing_def ringOf_def otherRing_def Let_def
        store_calculateApparentWind_fields)+

text \<open>
  C10. A pointer-up that ends a drag of ring \<open>r\<close> ends the drag session (\<open>isDragging\<close> is
  false and \<open>dragStart\<close> is cleared, in the store and in the handlers' own variables), leaves
  both rings as they were and leaves \<open>r\<close> selected. Then every arrow key moves \<open>r\<close> and only
  \<open>r\<close>, and the selection stays through arrow keys, other keys, pointer moves, further
  pointer-ups and resizes, until Escape or a pointer-down on empty space clears it.
\<close>

theorem handleMouseUp_keeps_selection:
  fixes g :: Gesture and s :: SailingState and r :: RingType
  assumes g1: "g_isDragging g" and g2: "currentRing g = Some r"
  defines "g' \<equiv> fst (handleMouseUp (g, s))" and "s' \<equiv> snd (handleMouseUp (g, s))"
  shows "\<not> isDragging s' \<and> dragStart s' = None \<and> selectedRing s' = Some r
       \<and> \<not> g_isDragging g' \<and> currentRing g' = None
       \<and> windRing s' = windRing s \<and> boatRing s' = boatRing s
       \<and> (\<forall>k d. keyDirection k = Some d \<longrightarrow>
             handleKeyDown k s' = moveSelectedRing d 0.05 s'
             \<and> selectedRing (handleKeyDown k s') = Some r
             \<and> ringOf (otherRing r) (handleKeyDown k s') = ringOf (otherRing r) s')
       \<and> angle (ringOf r (handleKeyDown ArrowLeft s')) = normalizeAngle (angle (ringOf r s) - degToRad 5)
       \<and> selectedRing (handleKeyDown OtherKey s') = Some r
       \<and> (\<forall>p. handleMouseMove p (g', s') = (g', s'))
       \<and> handleMouseUp (g', s') = (g', s')
       \<and> (\<forall>w h. selectedRing (handleResize w h s') = Some r)
       \<and> selectedRing (handleKeyDown Escape s') = None
       \<and> (\<forall>p. getRingAt p s' = None \<longrightarrow> selectedRing (snd (handleMouseDown p (g', s'))) = None)"
proof -
  have s': "s' = s\<lparr>selectedRing := Some r, isDragging := False, dragStart := None\<rparr>"
    using g1 g2 by (simp add: s'_def handleMouseUp_def selectRing_def endRingDrag_def)
  have g': "g' = \<lparr>g_isDragging = False, currentRing = None\<rparr>"
    by (simp add: g'_def handleMouseUp_def)
  have sel: "selectedRing s' = Some r" by (simp add: s')
  have rings: "ringOf r s' = ringOf r s" by (simp add: s' ringOf_def)
  have keys: "\<forall>k d. keyDirection k = Some d \<longrightarrow>
             handleKeyDown k s' = moveSelectedRing d 0.05 s'
             \<and> selectedRing (handleKeyDown k s') = Some r
             \<and> ringOf (otherRing r) (handleKeyDown k s') = ringOf (otherRing r) s'"
  proof (intro allI impI)
    fix k d assume kd: "keyDirection k = Some d"
    then have "handleKeyDown k s' = moveSelectedRing d 0.05 s'"
      using sel by (cases k) (auto simp add: handleKeyDown_def keyDirection_def)
    then show "handleKeyDown k s' = moveSelectedRing d 0.05 s'
             \<and> selectedRing (handleKeyDown k s') = Some r
             \<and> ringOf (otherRing r) (handleKeyDown k s') = ringOf (otherRing r) s'"
      using sel by (simp add: moveSelectedRing_fields moveSelectedRing_rings(2))
  qed
  have left: "angle (ringOf r (handleKeyDown ArrowLeft s')) = normalizeAngle (angle (ringOf r s) - degToRad 5)"
    using sel by (simp add: handleKeyDown_def moveSelectedRing_rings(1) rings)
  have other: "selectedRing (handleKeyDown OtherKey s') = Some r"
    using sel by (simp add: handleKeyDown_def)
  have move: "\<forall>p. handleMouseMove p (g', s') = (g', s')"
    by (simp add: handleMouseMove_def g')
  have up: "handleMouseUp (g', s') = (g', s')"
    by (simp add: handleMouseUp_def g')
  have resize: "\<forall>w h. selectedRing (handleResize w h s') = Some r"
    using sel by (simp add: handleResize_def updateCanvasDimensions_def Let_def)
  have esc: "selectedRing (handleKeyDown Escape s') = None"
    using sel by (simp add: handleKeyDown_def selectRing_def)
  have down: "\<forall>p. getRingAt p s' = None \<longrightarrow> selectedRing (snd (handleMouseDown p (g', s'))) = None"
    by (simp add: handleMouseDown_def selectRing_def)
  have basic: "\<not> isDragging s' \<and> dragStart s' = None \<and> selectedRing s' = Some r
       \<and> \<not> g_isDragging g' \<and> currentRing g' = None
       \<and> windRing s' = windRing s \<and> boatRing s' = boatRing s"
    by (simp add: s' g')
  show ?thesis using basic keys left other move up resize esc down by blast
qed

theorem handleMouseUp_keeps_selection_witness:
  "selectedRing (snd (handleMouseUp (\<lparr>g_isDragging = True, currentRing = Some Wind\<rparr>, dragExample))) = Some Wind
   \<and> \<not> isDragging (snd (handleMouseUp (\<lparr>g_isDragging = True, currentRing = Some Wind\<rparr>, dragExample)))
   \<and> dragStart (snd (handleMouseUp (\<lparr>g_isDragging = True, currentRing = Some Wind\<rparr>, dragExample))) = None
   \<and> selectedRing (handleKeyDown ArrowUp
        (snd (handleMouseUp (\<lparr>g_isDragging = True, currentRing = Some Wind\<rparr>, dragExample)))) = Some Wind
   \<and> selectedRing (snd (handleMouseDown \<lparr>vx = 400, vy = 300\<rparr>
        (fst (handleMouseUp (\<lparr>g_isDragging = True, currentRing = Some Wind\<rparr>, dragExample)),
         snd (handleMouseUp (\<lparr>g_isDragging = True, currentRing = Some Wind\<rparr>, dragExample))))) = None"
proof -
  have h1: "g_isDragging \<lparr>g_isDragging = True, currentRing = Some Wind\<rparr>" by simp
  have h2: "currentRing \<lparr>g_isDragging = True, currentRing = Some Wind\<rparr> = Some Wind" by simp
  have k: "keyDirection ArrowUp = Some Up" by (simp add: keyDirection_def)
  have e: "getRingAt \<lparr>vx = 400, vy = 300\<rparr>
             (snd (handleMouseUp (\<lparr>g_isDragging = True, currentRing = Some Wind\<rparr>, dragExample))) = None"
    by (simp add: getRingAt_def distance_def handleMouseUp_def selectRing_def endRingDrag_def
        dragExample_def startRingDrag_def initialState_def)
  show ?thesis using handleMouseUp_keeps_selection [OF h1 h2, of dragExample] k e by blast
qed

end
